theory Spec2Isabelle
  imports Main "HOL-Library.Word"
begin

unbundle bit_operations_syntax

section \<open>The pixel-hit clusterizer (Clusterizer.cpp)\<close>

text \<open>
  A shallow embedding of \<^verbatim>\<open>host/analysis/RawDataConverter/Clusterizer.cpp\<close>.
  Member functions of the class become functions on a record of its member variables;
  a thrown \<^verbatim>\<open>std::out_of_range\<close> and an access outside an array become error
  values; the recursion of the flood fill is counted down by a fuel argument, so that
  running out of fuel is the value \<open>None\<close>.

  The class declaration (\<^verbatim>\<open>Clusterizer.h\<close>) and the preprocessor constants
  (\<^verbatim>\<open>defines.h\<close>) are not among the sources. The constants are therefore a
  parameter of every function (the record \<open>geometry\<close>). Member variables get the
  type that their use in Clusterizer.cpp shows: the settings are \<^verbatim>\<open>unsigned int\<close>
  as the parameters of their setters are, the parameters and locals that the source
  declares \<^verbatim>\<open>unsigned short\<close> are 16-bit words, counters and positions that
  the source compares as \<^verbatim>\<open>int\<close> are integers. The cells of the hit map are
  16-bit words, \<open>- 1\<close> (all bits set) marking an empty cell. The float accumulators
  (cluster charge, charge-weighted position) are not modelled; of the charge map only
  the index of each read is kept, its entries are all zero in the source. Log output
  (info, debug, warning) has no effect on the state and is left out.
\<close>

subsection \<open>Constants, records and errors\<close>

record geometry =
  RAW_DATA_MAX_COLUMN :: nat
  RAW_DATA_MAX_ROW :: nat
  MAXBCID :: nat
  MAXTOTBINS :: nat
  MAXCLUSTERHITSBINS :: nat
  MAXTOTLOOKUP :: nat

record HitInfo =
  eventNumber :: "64 word"
  triggerNumber :: nat
  relativeBCID :: nat
  LVLID :: nat
  column :: nat
  row :: nat
  tot :: nat
  BCID :: nat
  TDC :: nat
  triggerStatus :: nat
  serviceRecord :: nat
  eventStatus :: nat

record ClusterHitInfo = HitInfo +
  clusterID :: int
  isSeed :: nat
  clusterSize :: nat
  nCluster :: nat

record ClusterInfo =
  c_eventNumber :: "64 word"
  c_ID :: int
  c_size :: int
  c_Tot :: int
  c_seed_column :: nat
  c_seed_row :: nat
  c_eventStatus :: nat

datatype array_name =
  HitMapArray | HitIndexMapArray | ChargeMapArray | ClusterHitInfoArray | ClusterInfoArray
  | ClusterHitsArray | ClusterTotsArray

datatype error =
  HitIndexOutOfRange
  | ClusterSizeOutOfRange
  | ClusterTotOutOfRange
  | TooManyClusters
  | SeedIndexOutOfRange
  | OutOfBounds array_name

record Clusterizer =
  dx :: "32 word"
  dy :: "32 word"
  DbCID :: "32 word"
  minClusterHits :: "32 word"
  maxClusterHits :: "32 word"
  maxClusterHitTot :: "32 word"
  maxHitTot :: "32 word"
  createClusterHitInfoArray :: bool
  createClusterInfoArray :: bool
  runTime :: nat
  hitInfo :: "HitInfo list"
  clusterHitInfo :: "ClusterHitInfo list"
  clusterHitInfoSize :: nat
  NclustersHits :: nat
  clusterInfo :: "ClusterInfo list"
  clusterInfoSize :: nat
  Nclusters :: nat
  hitMap :: "nat \<Rightarrow> 16 word"
  hitIndexMap :: "nat \<Rightarrow> nat"
  clusterHits :: "nat \<Rightarrow> 32 word"
  clusterTots :: "nat \<Rightarrow> 32 word"
  nHits :: int
  minColHitPos :: int
  maxColHitPos :: int
  minRowHitPos :: int
  maxRowHitPos :: int
  bCIDfirstHit :: int
  bCIDlastHit :: int
  actualClusterTot :: int
  actualClusterSize :: int
  actualRelativeClusterBCID :: int
  actualClusterMaxTot :: int
  actualClusterSeed_column :: "16 word"
  actualClusterSeed_row :: "16 word"
  actualClusterSeed_relbcid :: "16 word"
  abortCluster :: bool
  actualEventNumber :: "64 word"
  actualEventStatus :: nat
  actualClusterID :: int

subsection \<open>Results, sequencing and loops\<close>

text \<open>
  A call returns \<open>None\<close> when the fuel of the flood fill ran out, \<open>Some (Inl e)\<close>
  when it threw or left an array, and \<open>Some (Inr x)\<close> when it returned \<open>x\<close>. An
  error ends the run: the state that the source leaves behind a thrown exception is
  not modelled.
\<close>

type_synonym 'a result = "(error + 'a) option"

abbreviation ok :: "'a \<Rightarrow> 'a result" where
  "ok x \<equiv> Some (Inr x)"

abbreviation throw :: "error \<Rightarrow> 'a result" where
  "throw e \<equiv> Some (Inl e)"

fun bnd :: "'a result \<Rightarrow> ('a \<Rightarrow> 'b result) \<Rightarrow> 'b result" where
  "bnd None f = None"
| "bnd (Some (Inl e)) f = Some (Inl e)"
| "bnd (Some (Inr x)) f = f x"

text \<open>
  \<open>for_each\<close> is a counted loop whose bound nothing in its body changes.
  \<open>for_while\<close> is a \<^verbatim>\<open>for\<close> loop whose condition reads the state: it walks the
  range that the bound allows at most and tests the source's condition on the current
  state before every round.
\<close>

fun for_each :: "('i \<Rightarrow> 'st \<Rightarrow> 'st result) \<Rightarrow> 'i list \<Rightarrow> 'st \<Rightarrow> 'st result" where
  "for_each body [] st = ok st"
| "for_each body (i # is) st = bnd (body i st) (for_each body is)"

fun for_while ::
  "('i \<Rightarrow> 'st \<Rightarrow> bool) \<Rightarrow> ('i \<Rightarrow> 'st \<Rightarrow> 'st result) \<Rightarrow> 'i list \<Rightarrow> 'st \<Rightarrow> 'st result" where
  "for_while cond body [] st = ok st"
| "for_while cond body (i # is) st =
     (if cond i st then bnd (body i st) (for_while cond body is) else ok st)"

subsection \<open>The hit map\<close>

text \<open>The linear index of a cell, and the lengths that the arrays are allocated with.\<close>

definition cell :: "geometry \<Rightarrow> 16 word \<Rightarrow> 16 word \<Rightarrow> 16 word \<Rightarrow> nat" where
  "cell K pCol pRow pRelBcid =
     unat pCol + unat pRow * RAW_DATA_MAX_COLUMN K
       + unat pRelBcid * RAW_DATA_MAX_COLUMN K * RAW_DATA_MAX_ROW K"

definition hitMapLength :: "geometry \<Rightarrow> nat" where
  "hitMapLength K =
     nat ((int (RAW_DATA_MAX_COLUMN K) - 1)
          + (int (RAW_DATA_MAX_ROW K) - 1) * int (RAW_DATA_MAX_COLUMN K)
          + (int (MAXBCID K) - 1) * int (RAW_DATA_MAX_COLUMN K) * int (RAW_DATA_MAX_ROW K) + 1)"

definition chargeMapLength :: "geometry \<Rightarrow> nat" where
  "chargeMapLength K =
     nat ((int (RAW_DATA_MAX_COLUMN K) - 1)
          + (int (RAW_DATA_MAX_ROW K) - 1) * int (RAW_DATA_MAX_COLUMN K)
          + (int (MAXTOTLOOKUP K) - 1) * int (RAW_DATA_MAX_COLUMN K) * int (RAW_DATA_MAX_ROW K) + 1)"

text \<open>
  The two result histograms. \<^verbatim>\<open>allocateResultHistograms\<close> gives
  \<^verbatim>\<open>_clusterTots\<close> the length
  \<^verbatim>\<open>(__MAXTOTBINS-1) + (__MAXCLUSTERHITSBINS-1)*__MAXTOTBINS\<close>, without the
  \<^verbatim>\<open>+1\<close> of the two maps, which is one cell less than the number of bins.
\<close>

definition clusterTotsLength :: "geometry \<Rightarrow> nat" where
  "clusterTotsLength K =
     nat ((int (MAXTOTBINS K) - 1) + (int (MAXCLUSTERHITSBINS K) - 1) * int (MAXTOTBINS K))"

definition clusterHitsLength :: "geometry \<Rightarrow> nat" where
  "clusterHitsLength K = MAXCLUSTERHITSBINS K"

definition readHitMap :: "geometry \<Rightarrow> Clusterizer \<Rightarrow> nat \<Rightarrow> (16 word) result" where
  "readHitMap K s i =
     (if i < hitMapLength K then ok (hitMap s i) else throw (OutOfBounds HitMapArray))"

definition readChargeMap :: "geometry \<Rightarrow> nat \<Rightarrow> unit result" where
  "readChargeMap K i = (if i < chargeMapLength K then ok () else throw (OutOfBounds ChargeMapArray))"

definition hitExists ::
  "geometry \<Rightarrow> Clusterizer \<Rightarrow> 16 word \<Rightarrow> 16 word \<Rightarrow> 16 word \<Rightarrow> bool result" where
  "hitExists K s pCol pRow pRelBcid =
     (if 0 \<le> uint pCol \<and> uint pCol < int (RAW_DATA_MAX_COLUMN K)
         \<and> 0 \<le> uint pRow \<and> uint pRow < int (RAW_DATA_MAX_ROW K)
         \<and> 0 \<le> uint pRelBcid \<and> uint pRelBcid < int (MAXBCID K)
      then bnd (readHitMap K s (cell K pCol pRow pRelBcid)) (\<lambda>v. ok (v \<noteq> - 1))
      else ok False)"

definition deleteHit ::
  "geometry \<Rightarrow> 16 word \<Rightarrow> 16 word \<Rightarrow> 16 word \<Rightarrow> Clusterizer \<Rightarrow> (bool \<times> Clusterizer) result" where
  "deleteHit K pCol pRow pRelBcid s =
     (if cell K pCol pRow pRelBcid < hitMapLength K then
        (let s1 = s\<lparr>hitMap := (hitMap s)(cell K pCol pRow pRelBcid := - 1)\<rparr>;
             s2 = s1\<lparr>nHits := nHits s1 - 1\<rparr>
         in if nHits s2 = 0
            then ok (True, s2\<lparr>minColHitPos := int (RAW_DATA_MAX_COLUMN K) - 1,
                              maxColHitPos := 0,
                              minRowHitPos := int (RAW_DATA_MAX_ROW K) - 1,
                              maxRowHitPos := 0,
                              bCIDfirstHit := - 1,
                              bCIDlastHit := - 1\<rparr>)
            else ok (False, s2))
      else throw (OutOfBounds HitMapArray))"

definition initHitMap :: "geometry \<Rightarrow> Clusterizer \<Rightarrow> Clusterizer" where
  "initHitMap K s =
     s\<lparr>hitMap := (\<lambda>i. if i < RAW_DATA_MAX_COLUMN K * RAW_DATA_MAX_ROW K * MAXBCID K
                        then - 1 else hitMap s i),
       minColHitPos := int (RAW_DATA_MAX_COLUMN K) - 1,
       maxColHitPos := 0,
       minRowHitPos := int (RAW_DATA_MAX_ROW K) - 1,
       maxRowHitPos := 0,
       bCIDfirstHit := - 1,
       bCIDlastHit := - 1,
       nHits := 0\<rparr>"

subsection \<open>Settings, reset and construction\<close>

text \<open>
  \<^verbatim>\<open>clearResultHistograms\<close> writes a zero to the cell
  \<^verbatim>\<open>iTot + iClusterHit * __MAXTOTBINS\<close> for every \<^verbatim>\<open>iTot < __MAXTOTBINS\<close>
  and \<^verbatim>\<open>iClusterHit < __MAXCLUSTERHITSBINS\<close>, that is to the first
  \<open>MAXTOTBINS * MAXCLUSTERHITSBINS\<close> cells. The last of them is the cell
  \<open>clusterTotsLength\<close>, the word behind the allocated array (see
  \<open>clearResultHistograms_overrun\<close> below). \<open>clusterTots\<close> is therefore the
  memory from the base of the array on, including that word, and the write is the update
  that the loop performs there; it happens in every construction and in every
  \<^verbatim>\<open>reset\<close>, so an engine exists only where it does no harm. Every access to a
  histogram that depends on a cluster is checked against the allocated length in
  \<open>addClusterToResults\<close> and is an error outside of it.
\<close>

definition clearResultHistograms :: "geometry \<Rightarrow> Clusterizer \<Rightarrow> Clusterizer" where
  "clearResultHistograms K s =
     s\<lparr>clusterTots := (\<lambda>i. if i < MAXTOTBINS K * MAXCLUSTERHITSBINS K then 0 else clusterTots s i),
       clusterHits := (\<lambda>i. if i < MAXCLUSTERHITSBINS K then 0 else clusterHits s i)\<rparr>"

definition clearActualClusterData :: "Clusterizer \<Rightarrow> Clusterizer" where
  "clearActualClusterData s =
     s\<lparr>actualClusterTot := 0,
       actualClusterSize := 0,
       actualRelativeClusterBCID := 0,
       actualClusterMaxTot := 0,
       actualClusterSeed_column := 0,
       actualClusterSeed_row := 0,
       actualClusterSeed_relbcid := 0,
       abortCluster := False\<rparr>"

definition clearActualEventVariables :: "Clusterizer \<Rightarrow> Clusterizer" where
  "clearActualEventVariables s =
     s\<lparr>actualEventNumber := 0, actualEventStatus := 0, actualClusterID := 0\<rparr>"

definition reset :: "geometry \<Rightarrow> Clusterizer \<Rightarrow> Clusterizer" where
  "reset K s =
     clearActualEventVariables (clearActualClusterData (clearResultHistograms K (initHitMap K s)))"

definition setStandardSettings :: "geometry \<Rightarrow> Clusterizer \<Rightarrow> Clusterizer" where
  "setStandardSettings K s =
     s\<lparr>dx := 1,
       dy := 2,
       DbCID := 4,
       minClusterHits := 1,
       maxClusterHits := 9,
       runTime := 0,
       nHits := 0,
       maxClusterHitTot := 13,
       createClusterHitInfoArray := False,
       createClusterInfoArray := True,
       minColHitPos := int (RAW_DATA_MAX_COLUMN K) - 1,
       maxColHitPos := 0,
       minRowHitPos := int (RAW_DATA_MAX_ROW K) - 1,
       maxRowHitPos := 0,
       maxHitTot := 13\<rparr>"

text \<open>
  The constructor: \<open>mem\<close> is what the memory of the new object and of its arrays
  holds before the constructor runs. The two output pointers are set to null (here the
  empty buffer), everything else that the constructor does not assign keeps the value of
  \<open>mem\<close>.
\<close>

definition Clusterizer_new :: "geometry \<Rightarrow> Clusterizer \<Rightarrow> Clusterizer" where
  "Clusterizer_new K mem = reset K (setStandardSettings K (mem\<lparr>clusterHitInfo := [], clusterInfo := []\<rparr>))"

definition setClusterHitInfoArray :: "ClusterHitInfo list \<Rightarrow> nat \<Rightarrow> Clusterizer \<Rightarrow> Clusterizer" where
  "setClusterHitInfoArray rClusterHitInfo rSize s =
     s\<lparr>clusterHitInfo := rClusterHitInfo, clusterHitInfoSize := rSize, NclustersHits := 0\<rparr>"

definition setClusterInfoArray :: "ClusterInfo list \<Rightarrow> nat \<Rightarrow> Clusterizer \<Rightarrow> Clusterizer" where
  "setClusterInfoArray rClusterInfo rSize s =
     s\<lparr>clusterInfo := rClusterInfo, clusterInfoSize := rSize, Nclusters := 0\<rparr>"

text \<open>
  The setters compare their \<^verbatim>\<open>unsigned int\<close> argument with an \<^verbatim>\<open>int\<close>
  constant expression, which C++ converts to \<^verbatim>\<open>unsigned int\<close> first.
\<close>

definition setXclusterDistance :: "geometry \<Rightarrow> 32 word \<Rightarrow> Clusterizer \<Rightarrow> Clusterizer" where
  "setXclusterDistance K pDx s =
     (if pDx > 1 \<and> pDx < word_of_int (int (RAW_DATA_MAX_COLUMN K) - 1) then s\<lparr>dx := pDx\<rparr> else s)"

definition setYclusterDistance :: "geometry \<Rightarrow> 32 word \<Rightarrow> Clusterizer \<Rightarrow> Clusterizer" where
  "setYclusterDistance K pDy s =
     (if pDy > 1 \<and> pDy < word_of_int (int (RAW_DATA_MAX_ROW K) - 1) then s\<lparr>dy := pDy\<rparr> else s)"

definition setBCIDclusterDistance :: "geometry \<Rightarrow> 32 word \<Rightarrow> Clusterizer \<Rightarrow> Clusterizer" where
  "setBCIDclusterDistance K pDbCID s =
     (if pDbCID < word_of_int (int (MAXBCID K) - 1) then s\<lparr>DbCID := pDbCID\<rparr> else s)"

definition setMinClusterHits :: "32 word \<Rightarrow> Clusterizer \<Rightarrow> Clusterizer" where
  "setMinClusterHits pMinNclusterHits s = s\<lparr>minClusterHits := pMinNclusterHits\<rparr>"

definition setMaxClusterHits :: "32 word \<Rightarrow> Clusterizer \<Rightarrow> Clusterizer" where
  "setMaxClusterHits pMaxNclusterHits s = s\<lparr>maxClusterHits := pMaxNclusterHits\<rparr>"

definition setMaxClusterHitTot :: "32 word \<Rightarrow> Clusterizer \<Rightarrow> Clusterizer" where
  "setMaxClusterHitTot pMaxClusterHitTot s = s\<lparr>maxClusterHitTot := pMaxClusterHitTot\<rparr>"

definition setMaxHitTot :: "32 word \<Rightarrow> Clusterizer \<Rightarrow> Clusterizer" where
  "setMaxHitTot pMaxHitTot s = s\<lparr>maxHitTot := pMaxHitTot\<rparr>"

definition getNclusters :: "Clusterizer \<Rightarrow> nat" where
  "getNclusters s = Nclusters s"

subsection \<open>Inserting a hit\<close>

definition addHit :: "geometry \<Rightarrow> nat \<Rightarrow> Clusterizer \<Rightarrow> Clusterizer result" where
  "addHit K pHitIndex s0 =
     (let h = hitInfo s0 ! pHitIndex;
          tCol = (word_of_int (int (column h) - 1) :: 16 word);
          tRow = (word_of_int (int (row h) - 1) :: 16 word);
          tRelBcid = (word_of_nat (relativeBCID h) :: 16 word);
          tTot = (word_of_nat (tot h) :: 16 word);
          s1 = s0\<lparr>actualEventStatus := eventStatus h OR actualEventStatus s0\<rparr>
      in if unat tTot > unat (maxHitTot s1) then ok s1
         else
           (let s2 = (if nHits s1 = 0 then s1\<lparr>bCIDfirstHit := uint tRelBcid\<rparr> else s1);
                s3 = (if uint tRelBcid > bCIDlastHit s2 then s2\<lparr>bCIDlastHit := uint tRelBcid\<rparr> else s2);
                s4 = (if uint tCol > maxColHitPos s3 then s3\<lparr>maxColHitPos := uint tCol\<rparr> else s3);
                s5 = (if uint tCol < minColHitPos s4 then s4\<lparr>minColHitPos := uint tCol\<rparr> else s4);
                s6 = (if uint tRow < minRowHitPos s5 then s5\<lparr>minRowHitPos := uint tRow\<rparr> else s5);
                s7 = (if uint tRow > maxRowHitPos s6 then s6\<lparr>maxRowHitPos := uint tRow\<rparr> else s6)
            in bnd (readHitMap K s7 (cell K tCol tRow tRelBcid)) (\<lambda>v.
                 let s8 = (if v = - 1
                           then s7\<lparr>hitMap := (hitMap s7)(cell K tCol tRow tRelBcid := tTot),
                                   hitIndexMap := (hitIndexMap s7)(cell K tCol tRow tRelBcid := pHitIndex),
                                   nHits := nHits s7 + 1\<rparr>
                           else s7)
                 in if createClusterHitInfoArray s8 then
                      (if pHitIndex < length (clusterHitInfo s8) then
                         ok (s8\<lparr>clusterHitInfo := (clusterHitInfo s8)[pHitIndex :=
                               (clusterHitInfo s8 ! pHitIndex)
                                 \<lparr>eventNumber := eventNumber h,
                                  triggerNumber := triggerNumber h,
                                  relativeBCID := relativeBCID h,
                                  LVLID := LVLID h,
                                  column := column h,
                                  row := row h,
                                  tot := tot h,
                                  TDC := TDC h,
                                  BCID := BCID h,
                                  triggerStatus := triggerStatus h,
                                  serviceRecord := serviceRecord h,
                                  eventStatus := eventStatus h,
                                  isSeed := 0,
                                  clusterSize := 666,
                                  nCluster := 666\<rparr>]\<rparr>)
                       else throw (OutOfBounds ClusterHitInfoArray))
                    else ok s8)))"

subsection \<open>The flood fill\<close>

text \<open>
  The eight probes of one round of the search loop, in the order of the source. The
  coordinates are computed as \<^verbatim>\<open>int\<close> and converted to the
  \<^verbatim>\<open>unsigned short\<close> parameters of \<^verbatim>\<open>hitExists\<close> and
  \<^verbatim>\<open>searchNextHits\<close>, so a coordinate below zero wraps around.
\<close>

datatype direction = Up | UpRight | Right | DownRight | Down | DownLeft | Left | UpLeft

fun neighbour :: "direction \<Rightarrow> 16 word \<Rightarrow> 16 word \<Rightarrow> int \<Rightarrow> int \<Rightarrow> 16 word \<times> 16 word" where
  "neighbour Up pCol pRow iDx iDy = (pCol, word_of_int (uint pRow + iDy))"
| "neighbour UpRight pCol pRow iDx iDy = (word_of_int (uint pCol + iDx), word_of_int (uint pRow + iDy))"
| "neighbour Right pCol pRow iDx iDy = (word_of_int (uint pCol + iDx), pRow)"
| "neighbour DownRight pCol pRow iDx iDy = (word_of_int (uint pCol + iDx), word_of_int (uint pRow - iDy))"
| "neighbour Down pCol pRow iDx iDy = (pCol, word_of_int (uint pRow - iDy))"
| "neighbour DownLeft pCol pRow iDx iDy = (word_of_int (uint pCol - iDx), word_of_int (uint pRow - iDy))"
| "neighbour Left pCol pRow iDx iDy = (word_of_int (uint pCol - iDx), pRow)"
| "neighbour UpLeft pCol pRow iDx iDy = (word_of_int (uint pCol - iDx), word_of_int (uint pRow + iDy))"

definition directions :: "direction list" where
  "directions = [Up, UpRight, Right, DownRight, Down, DownLeft, Left, UpLeft]"

text \<open>
  One probe: \<^verbatim>\<open>if(hitExists(c, r, iDbCID) && !tHit){tHit = true; searchNextHits(c, r, iDbCID);}\<close>.
  The latches \<open>tHit\<close> are local to the frame; \<open>rec\<close> is the recursive call.
\<close>

definition probe ::
  "(16 word \<Rightarrow> 16 word \<Rightarrow> 16 word \<Rightarrow> Clusterizer \<Rightarrow> Clusterizer result) \<Rightarrow> geometry
     \<Rightarrow> 16 word \<Rightarrow> 16 word \<Rightarrow> int \<Rightarrow> int \<Rightarrow> int \<Rightarrow> direction
     \<Rightarrow> (direction \<Rightarrow> bool) \<times> Clusterizer \<Rightarrow> ((direction \<Rightarrow> bool) \<times> Clusterizer) result" where
  "probe rec K pCol pRow iDbCID iDx iDy d = (\<lambda>(tHit, s).
     bnd (hitExists K s (fst (neighbour d pCol pRow iDx iDy)) (snd (neighbour d pCol pRow iDx iDy))
            (word_of_int iDbCID)) (\<lambda>e.
       if e \<and> \<not> tHit d
       then bnd (rec (fst (neighbour d pCol pRow iDx iDy)) (snd (neighbour d pCol pRow iDx iDy))
                   (word_of_int iDbCID) s) (\<lambda>s'. ok (tHit(d := True), s'))
       else ok (tHit, s)))"

text \<open>
  The search loops of one frame. \<^verbatim>\<open>iDbCID\<close> is an \<^verbatim>\<open>unsigned int\<close> that runs
  from the BCID of the cluster to that BCID plus \<^verbatim>\<open>_DbCID\<close>; its second
  condition compares it with \<^verbatim>\<open>(unsigned int) _bCIDlastHit\<close>, which is
  \<open>2 ^ 32 - 1\<close> once the last hit was deleted.
\<close>

definition searchLoops ::
  "(16 word \<Rightarrow> 16 word \<Rightarrow> 16 word \<Rightarrow> Clusterizer \<Rightarrow> Clusterizer result) \<Rightarrow> geometry
     \<Rightarrow> 16 word \<Rightarrow> 16 word \<Rightarrow> Clusterizer \<Rightarrow> Clusterizer result" where
  "searchLoops rec K pCol pRow s =
     bnd (for_while (\<lambda>iDbCID (tHit, s1). iDbCID \<le> bCIDlastHit s1 mod 2 ^ 32)
            (\<lambda>iDbCID (tHit, s1).
               for_each (\<lambda>iDx (tHit, s2).
                  for_each (\<lambda>iDy (tHit, s3).
                     for_each (probe rec K pCol pRow iDbCID iDx iDy) directions
                       (tHit, s3\<lparr>runTime := runTime s3 + 1\<rparr>))
                    [1 .. sint (dy s2)] (tHit, s2))
                 [1 .. sint (dx s1)] (tHit, s1))
            [actualRelativeClusterBCID s mod 2 ^ 32
               .. (actualRelativeClusterBCID s + uint (DbCID s)) mod 2 ^ 32]
            (\<lambda>d. False, s))
       (\<lambda>(tHit, s'). ok s')"

primrec searchNextHits ::
  "nat \<Rightarrow> geometry \<Rightarrow> 16 word \<Rightarrow> 16 word \<Rightarrow> 16 word \<Rightarrow> Clusterizer \<Rightarrow> Clusterizer result" where
  "searchNextHits 0 K pCol pRow pRelBcid s0 = None"
| "searchNextHits (Suc n) K pCol pRow pRelBcid s0 =
     (let s1 = s0\<lparr>actualClusterSize := actualClusterSize s0 + 1\<rparr>
      in bnd (readHitMap K s1 (cell K pCol pRow pRelBcid)) (\<lambda>tTot.
         let s2 = (if uint tTot \<ge> actualClusterMaxTot s1 \<and> uint tTot \<le> uint (maxHitTot s1)
                   then s1\<lparr>actualClusterSeed_column := pCol,
                           actualClusterSeed_row := pRow,
                           actualClusterSeed_relbcid := pRelBcid,
                           actualClusterMaxTot := uint tTot\<rparr>
                   else s1)
         in bnd (if createClusterHitInfoArray s2 then
                   (if hitIndexMap s2 (cell K pCol pRow pRelBcid) < clusterHitInfoSize s2 then
                      (if hitIndexMap s2 (cell K pCol pRow pRelBcid) < length (clusterHitInfo s2) then
                         ok (s2\<lparr>clusterHitInfo :=
                               (clusterHitInfo s2)[hitIndexMap s2 (cell K pCol pRow pRelBcid) :=
                                  (clusterHitInfo s2 ! hitIndexMap s2 (cell K pCol pRow pRelBcid))
                                    \<lparr>clusterID := actualClusterID s2\<rparr>]\<rparr>)
                       else throw (OutOfBounds ClusterHitInfoArray))
                    else throw HitIndexOutOfRange)
                 else ok s2) (\<lambda>s3.
         let s4 = (if uint tTot > sint (ucast (maxClusterHitTot s3) :: 16 word)
                   then s3\<lparr>abortCluster := True\<rparr> else s3);
             s5 = (if actualClusterSize s4 > sint (maxClusterHits s4)
                   then s4\<lparr>abortCluster := True\<rparr> else s4);
             s6 = s5\<lparr>actualClusterTot := actualClusterTot s5 + uint tTot\<rparr>
         in bnd (readChargeMap K (unat pCol + unat pRow * RAW_DATA_MAX_COLUMN K
                                  + unat tTot * RAW_DATA_MAX_COLUMN K * RAW_DATA_MAX_ROW K)) (\<lambda>u.
            bnd (deleteHit K pCol pRow pRelBcid s6) (\<lambda>(empty, s7).
              if empty then ok s7
              else searchLoops (searchNextHits n K) K pCol pRow s7)))))"

subsection \<open>Committing a cluster\<close>

definition addClusterToResults :: "geometry \<Rightarrow> Clusterizer \<Rightarrow> Clusterizer result" where
  "addClusterToResults K s =
     (if \<not> abortCluster s then
        (if actualClusterSize s < int (MAXCLUSTERHITSBINS K) then
           (if 0 \<le> actualClusterSize s \<and> nat (actualClusterSize s) < clusterHitsLength K then
              (let s1 = s\<lparr>clusterHits := (clusterHits s)(nat (actualClusterSize s) :=
                                             clusterHits s (nat (actualClusterSize s)) + 1)\<rparr>
               in if actualClusterTot s1 < int (MAXTOTBINS K)
                       \<and> actualClusterSize s1 < int (MAXCLUSTERHITSBINS K) then
                    (if 0 \<le> actualClusterTot s1 + actualClusterSize s1 * int (MAXTOTBINS K)
                         \<and> nat (actualClusterTot s1 + actualClusterSize s1 * int (MAXTOTBINS K))
                             < clusterTotsLength K then
                       (let s2 = s1\<lparr>clusterTots := (clusterTots s1)
                                      (nat (actualClusterTot s1 + actualClusterSize s1 * int (MAXTOTBINS K)) :=
                                         clusterTots s1 (nat (actualClusterTot s1
                                                              + actualClusterSize s1 * int (MAXTOTBINS K))) + 1)\<rparr>
                        in if 0 \<le> actualClusterTot s2 \<and> nat (actualClusterTot s2) < clusterTotsLength K then
                             ok (s2\<lparr>clusterTots := (clusterTots s2)(nat (actualClusterTot s2) :=
                                                        clusterTots s2 (nat (actualClusterTot s2)) + 1)\<rparr>)
                           else throw (OutOfBounds ClusterTotsArray))
                     else throw (OutOfBounds ClusterTotsArray))
                  else throw ClusterTotOutOfRange)
            else throw (OutOfBounds ClusterHitsArray))
         else throw ClusterSizeOutOfRange)
      else ok s)"

definition addCluster :: "geometry \<Rightarrow> Clusterizer \<Rightarrow> Clusterizer result" where
  "addCluster K s =
     bnd (if createClusterInfoArray s then
            (if Nclusters s < clusterInfoSize s then
               (if Nclusters s < length (clusterInfo s) then
                  ok (s\<lparr>clusterInfo := (clusterInfo s)[Nclusters s :=
                          (clusterInfo s ! Nclusters s)
                            \<lparr>c_eventNumber := actualEventNumber s,
                             c_ID := actualClusterID s,
                             c_size := actualClusterSize s,
                             c_Tot := actualClusterTot s,
                             c_seed_column := unat (actualClusterSeed_column s) + 1,
                             c_seed_row := unat (actualClusterSeed_row s) + 1,
                             c_eventStatus := actualEventStatus s\<rparr>]\<rparr>)
                else throw (OutOfBounds ClusterInfoArray))
             else throw TooManyClusters)
          else ok s) (\<lambda>s1.
     let s2 = s1\<lparr>Nclusters := Nclusters s1 + 1\<rparr>;
         seed = cell K (actualClusterSeed_column s2) (actualClusterSeed_row s2)
                  (actualClusterSeed_relbcid s2)
     in if createClusterHitInfoArray s2 then
          (if seed < hitMapLength K then
             (if hitIndexMap s2 seed < clusterHitInfoSize s2 then
                (if hitIndexMap s2 seed < length (clusterHitInfo s2) then
                   ok (s2\<lparr>clusterHitInfo := (clusterHitInfo s2)[hitIndexMap s2 seed :=
                            (clusterHitInfo s2 ! hitIndexMap s2 seed)\<lparr>isSeed := 1\<rparr>]\<rparr>)
                 else throw (OutOfBounds ClusterHitInfoArray))
              else throw SeedIndexOutOfRange)
           else throw (OutOfBounds HitIndexMapArray))
        else ok s2)"

definition addHitClusterInfo :: "32 word \<Rightarrow> Clusterizer \<Rightarrow> Clusterizer" where
  "addHitClusterInfo pHitIndex s = s"

subsection \<open>Clustering one event\<close>

text \<open>
  The body of the innermost scan loop. The loop state carries the value that
  \<^verbatim>\<open>clusterize\<close> has returned from inside the loops, \<open>None\<close> while it has
  not returned.
\<close>

definition clusterize_cell ::
  "nat \<Rightarrow> geometry \<Rightarrow> int \<Rightarrow> int \<Rightarrow> int \<Rightarrow> bool option \<times> Clusterizer
     \<Rightarrow> (bool option \<times> Clusterizer) result" where
  "clusterize_cell n K iBCID iCol iRow = (\<lambda>(ret, s).
     bnd (hitExists K s (word_of_int iCol) (word_of_int iRow) (word_of_int iBCID)) (\<lambda>e.
     bnd (if e then
            bnd (searchNextHits n K (word_of_int iCol) (word_of_int iRow) (word_of_int iBCID)
                   ((clearActualClusterData s)\<lparr>actualRelativeClusterBCID := iBCID\<rparr>)) (\<lambda>s1.
              if actualClusterSize s1 \<ge> sint (minClusterHits s1) then
                bnd (addClusterToResults K s1) (\<lambda>s2.
                bnd (addCluster K s2) (\<lambda>s3.
                  ok (s3\<lparr>actualClusterID := actualClusterID s3 + 1\<rparr>)))
              else ok s1)
          else ok s) (\<lambda>s'.
       ok (if nHits s' = 0 then Some True else None, s'))))"

definition clusterize :: "nat \<Rightarrow> geometry \<Rightarrow> Clusterizer \<Rightarrow> (bool \<times> Clusterizer) result" where
  "clusterize n K s0 =
     bnd (for_while (\<lambda>iBCID (ret, s). ret = None \<and> iBCID \<le> bCIDlastHit s)
            (\<lambda>iBCID (ret, s).
               for_while (\<lambda>iCol (ret, s1). ret = None \<and> iCol \<le> maxColHitPos s1)
                 (\<lambda>iCol (ret, s1).
                    for_while (\<lambda>iRow (ret, s2). ret = None \<and> iRow \<le> maxRowHitPos s2)
                      (clusterize_cell n K iBCID iCol)
                      [minRowHitPos s1 .. max (maxRowHitPos s1) 0] (ret, s1))
                 [minColHitPos s .. max (maxColHitPos s) 0] (ret, s))
            [bCIDfirstHit s0 .. max (bCIDlastHit s0) (- 1)] (None, s0\<lparr>runTime := 0\<rparr>))
       (\<lambda>(ret, s). ok (case ret of Some b \<Rightarrow> b | None \<Rightarrow> nHits s = 0, s))"

subsection \<open>The stream driver\<close>

definition addHits_step :: "nat \<Rightarrow> geometry \<Rightarrow> nat \<Rightarrow> Clusterizer \<Rightarrow> Clusterizer result" where
  "addHits_step n K i s =
     bnd (if actualEventNumber s \<noteq> eventNumber (hitInfo s ! i) then
            bnd (clusterize n K s) (\<lambda>(r, s1).
              ok (clearActualEventVariables (addHitClusterInfo (word_of_nat i) s1)))
          else ok s) (\<lambda>s2.
       addHit K i (s2\<lparr>actualEventNumber := eventNumber (hitInfo s2 ! i)\<rparr>))"

definition addHits :: "nat \<Rightarrow> geometry \<Rightarrow> HitInfo list \<Rightarrow> Clusterizer \<Rightarrow> Clusterizer result" where
  "addHits n K rHitInfo s0 =
     bnd (for_each (addHits_step n K) [0 ..< length rHitInfo] (s0\<lparr>hitInfo := rHitInfo, Nclusters := 0\<rparr>))
       (\<lambda>s1. bnd (clusterize n K s1) (\<lambda>(r, s2).
          ok (addHitClusterInfo (word_of_nat (length rHitInfo) - 1) s2)))"

subsection \<open>Example data\<close>

text \<open>
  A geometry to run the model on (the FE-I4 pixel matrix of 80 columns and 336 rows),
  a hit with only the fields that the clusterizer reads, and a memory of zeros.
\<close>

definition example_geometry :: geometry where
  "example_geometry =
     \<lparr>RAW_DATA_MAX_COLUMN = 80, RAW_DATA_MAX_ROW = 336, MAXBCID = 16, MAXTOTBINS = 128,
      MAXCLUSTERHITSBINS = 1024, MAXTOTLOOKUP = 14\<rparr>"

definition hit :: "64 word \<Rightarrow> nat \<Rightarrow> nat \<Rightarrow> nat \<Rightarrow> nat \<Rightarrow> HitInfo" where
  "hit evt col rw bcid t =
     \<lparr>eventNumber = evt, triggerNumber = 0, relativeBCID = bcid, LVLID = 0, column = col,
      row = rw, tot = t, BCID = 0, TDC = 0, triggerStatus = 0, serviceRecord = 0,
      eventStatus = 0\<rparr>"

definition blank_hit_info :: ClusterHitInfo where
  "blank_hit_info =
     \<lparr>eventNumber = 0, triggerNumber = 0, relativeBCID = 0, LVLID = 0, column = 0,
      row = 0, tot = 0, BCID = 0, TDC = 0, triggerStatus = 0, serviceRecord = 0,
      eventStatus = 0, clusterID = 0, isSeed = 0, clusterSize = 0, nCluster = 0\<rparr>"

definition blank_cluster_info :: ClusterInfo where
  "blank_cluster_info =
     \<lparr>c_eventNumber = 0, c_ID = 0, c_size = 0, c_Tot = 0, c_seed_column = 0, c_seed_row = 0,
      c_eventStatus = 0\<rparr>"

definition zero_memory :: Clusterizer where
  "zero_memory =
     \<lparr>dx = 0, dy = 0, DbCID = 0, minClusterHits = 0, maxClusterHits = 0, maxClusterHitTot = 0,
      maxHitTot = 0, createClusterHitInfoArray = False, createClusterInfoArray = False,
      runTime = 0, hitInfo = [], clusterHitInfo = [], clusterHitInfoSize = 0, NclustersHits = 0,
      clusterInfo = [], clusterInfoSize = 0, Nclusters = 0, hitMap = (\<lambda>i. 0),
      hitIndexMap = (\<lambda>i. 0), clusterHits = (\<lambda>i. 0), clusterTots = (\<lambda>i. 0), nHits = 0,
      minColHitPos = 0, maxColHitPos = 0, minRowHitPos = 0, maxRowHitPos = 0, bCIDfirstHit = 0,
      bCIDlastHit = 0, actualClusterTot = 0, actualClusterSize = 0,
      actualRelativeClusterBCID = 0, actualClusterMaxTot = 0, actualClusterSeed_column = 0,
      actualClusterSeed_row = 0, actualClusterSeed_relbcid = 0, abortCluster = False,
      actualEventNumber = 0, actualEventStatus = 0, actualClusterID = 0\<rparr>"

subsection \<open>Observations\<close>

text \<open>
  What a caller sees of a run: \<open>observe f r\<close> reads \<open>f\<close> off the state that the
  run \<open>r\<close> returned. The cluster summaries that count are the first
  \<^verbatim>\<open>getNclusters()\<close> slots of the caller's buffer.
\<close>

definition observe :: "(Clusterizer \<Rightarrow> 'a) \<Rightarrow> Clusterizer result \<Rightarrow> 'a result" where
  "observe f r = bnd r (\<lambda>s. ok (f s))"

definition emitted :: "Clusterizer \<Rightarrow> ClusterInfo list" where
  "emitted s = take (Nclusters s) (clusterInfo s)"

definition emitted_sizes :: "Clusterizer \<Rightarrow> int list" where
  "emitted_sizes s = map c_size (emitted s)"

subsection \<open>Sequences of calls\<close>

text \<open>
  Modelled from the spec: the setters of the two switches of the option table
  (\<^verbatim>\<open>create_cluster_hit_info\<close>, \<^verbatim>\<open>create_cluster_info\<close>), which the class
  declaration defines inline and Clusterizer.cpp only reads.
\<close>

definition createClusterHitInfoArray_set :: "bool \<Rightarrow> Clusterizer \<Rightarrow> Clusterizer" where
  "createClusterHitInfoArray_set toggle s = s\<lparr>createClusterHitInfoArray := toggle\<rparr>"

definition createClusterInfoArray_set :: "bool \<Rightarrow> Clusterizer \<Rightarrow> Clusterizer" where
  "createClusterInfoArray_set toggle s = s\<lparr>createClusterInfoArray := toggle\<rparr>"

text \<open>The calls of the public interface, and a sequence of them run on an engine.\<close>

datatype call =
  Reset
  | SetXclusterDistance "32 word"
  | SetYclusterDistance "32 word"
  | SetBCIDclusterDistance "32 word"
  | SetMinClusterHits "32 word"
  | SetMaxClusterHits "32 word"
  | SetMaxClusterHitTot "32 word"
  | SetMaxHitTot "32 word"
  | CreateClusterHitInfoArray bool
  | CreateClusterInfoArray bool
  | SetClusterHitInfoArray "ClusterHitInfo list" nat
  | SetClusterInfoArray "ClusterInfo list" nat
  | AddHits "HitInfo list"

fun perform :: "nat \<Rightarrow> geometry \<Rightarrow> call \<Rightarrow> Clusterizer \<Rightarrow> Clusterizer result" where
  "perform n K Reset s = ok (reset K s)"
| "perform n K (SetXclusterDistance v) s = ok (setXclusterDistance K v s)"
| "perform n K (SetYclusterDistance v) s = ok (setYclusterDistance K v s)"
| "perform n K (SetBCIDclusterDistance v) s = ok (setBCIDclusterDistance K v s)"
| "perform n K (SetMinClusterHits v) s = ok (setMinClusterHits v s)"
| "perform n K (SetMaxClusterHits v) s = ok (setMaxClusterHits v s)"
| "perform n K (SetMaxClusterHitTot v) s = ok (setMaxClusterHitTot v s)"
| "perform n K (SetMaxHitTot v) s = ok (setMaxHitTot v s)"
| "perform n K (CreateClusterHitInfoArray b) s = ok (createClusterHitInfoArray_set b s)"
| "perform n K (CreateClusterInfoArray b) s = ok (createClusterInfoArray_set b s)"
| "perform n K (SetClusterHitInfoArray buf rSize) s = ok (setClusterHitInfoArray buf rSize s)"
| "perform n K (SetClusterInfoArray buf rSize) s = ok (setClusterInfoArray buf rSize s)"
| "perform n K (AddHits hits) s = addHits n K hits s"

definition run :: "nat \<Rightarrow> geometry \<Rightarrow> call list \<Rightarrow> Clusterizer \<Rightarrow> Clusterizer result" where
  "run n K calls s = for_each (perform n K) calls s"

text \<open>
  A fresh engine with a summary buffer of two slots, and a hit whose ToT is above the
  default \<^verbatim>\<open>_maxHitTot\<close> and whose event status is not zero.
\<close>

definition example_engine :: Clusterizer where
  "example_engine =
     setClusterInfoArray [blank_cluster_info, blank_cluster_info] 2
       (Clusterizer_new example_geometry zero_memory)"

definition hot_hit :: HitInfo where
  "hot_hit = (hit 1 5 10 0 14)\<lparr>eventStatus := 1\<rparr>"

subsection \<open>Notions for the invariants\<close>

text \<open>
  The part of \<^verbatim>\<open>searchNextHits\<close> that consumes the hit of the frame, up to and
  including \<^verbatim>\<open>deleteHit\<close>; the search loops follow it. It is the text of
  \<open>searchNextHits\<close> above and only serves to state lemmas about one frame.
\<close>

definition searchNextHits_head ::
  "geometry \<Rightarrow> 16 word \<Rightarrow> 16 word \<Rightarrow> 16 word \<Rightarrow> Clusterizer \<Rightarrow> (bool \<times> Clusterizer) result" where
  "searchNextHits_head K pCol pRow pRelBcid s0 =
     (let s1 = s0\<lparr>actualClusterSize := actualClusterSize s0 + 1\<rparr>
      in bnd (readHitMap K s1 (cell K pCol pRow pRelBcid)) (\<lambda>tTot.
         let s2 = (if uint tTot \<ge> actualClusterMaxTot s1 \<and> uint tTot \<le> uint (maxHitTot s1)
                   then s1\<lparr>actualClusterSeed_column := pCol,
                           actualClusterSeed_row := pRow,
                           actualClusterSeed_relbcid := pRelBcid,
                           actualClusterMaxTot := uint tTot\<rparr>
                   else s1)
         in bnd (if createClusterHitInfoArray s2 then
                   (if hitIndexMap s2 (cell K pCol pRow pRelBcid) < clusterHitInfoSize s2 then
                      (if hitIndexMap s2 (cell K pCol pRow pRelBcid) < length (clusterHitInfo s2) then
                         ok (s2\<lparr>clusterHitInfo :=
                               (clusterHitInfo s2)[hitIndexMap s2 (cell K pCol pRow pRelBcid) :=
                                  (clusterHitInfo s2 ! hitIndexMap s2 (cell K pCol pRow pRelBcid))
                                    \<lparr>clusterID := actualClusterID s2\<rparr>]\<rparr>)
                       else throw (OutOfBounds ClusterHitInfoArray))
                    else throw HitIndexOutOfRange)
                 else ok s2) (\<lambda>s3.
         let s4 = (if uint tTot > sint (ucast (maxClusterHitTot s3) :: 16 word)
                   then s3\<lparr>abortCluster := True\<rparr> else s3);
             s5 = (if actualClusterSize s4 > sint (maxClusterHits s4)
                   then s4\<lparr>abortCluster := True\<rparr> else s4);
             s6 = s5\<lparr>actualClusterTot := actualClusterTot s5 + uint tTot\<rparr>
         in bnd (readChargeMap K (unat pCol + unat pRow * RAW_DATA_MAX_COLUMN K
                                  + unat tTot * RAW_DATA_MAX_COLUMN K * RAW_DATA_MAX_ROW K)) (\<lambda>u.
            deleteHit K pCol pRow pRelBcid s6))))"

text \<open>
  The occupied cells of the hit map, a cell that lies on the pixel matrix and in the BCID
  window, and the empty grid.
\<close>

definition occupied :: "geometry \<Rightarrow> Clusterizer \<Rightarrow> nat set" where
  "occupied K s = {i. i < hitMapLength K \<and> hitMap s i \<noteq> - 1}"

definition in_range :: "geometry \<Rightarrow> 16 word \<Rightarrow> 16 word \<Rightarrow> 16 word \<Rightarrow> bool" where
  "in_range K c r b \<longleftrightarrow>
     unat c < RAW_DATA_MAX_COLUMN K \<and> unat r < RAW_DATA_MAX_ROW K \<and> unat b < MAXBCID K"

definition grid_empty :: "geometry \<Rightarrow> Clusterizer \<Rightarrow> bool" where
  "grid_empty K s \<longleftrightarrow> nHits s = 0 \<and> (\<forall>i < hitMapLength K. hitMap s i = - 1)"

definition bbox :: "Clusterizer \<Rightarrow> int \<times> int \<times> int \<times> int \<times> int \<times> int" where
  "bbox s = (minColHitPos s, maxColHitPos s, minRowHitPos s, maxRowHitPos s,
             bCIDfirstHit s, bCIDlastHit s)"

text \<open>
  The invariants of the grid store: the live-hit count is the number of occupied cells,
  every occupied cell lies on the pixel matrix and in the BCID window, and the bounding
  box brackets every occupied cell.
\<close>

definition on_matrix :: "geometry \<Rightarrow> Clusterizer \<Rightarrow> bool" where
  "on_matrix K s \<longleftrightarrow> (\<forall>i \<in> occupied K s. \<exists>c r b. in_range K c r b \<and> i = cell K c r b)"

definition bracketed :: "geometry \<Rightarrow> Clusterizer \<Rightarrow> bool" where
  "bracketed K s \<longleftrightarrow>
     (\<forall>c r b. in_range K c r b \<and> hitMap s (cell K c r b) \<noteq> - 1 \<longrightarrow>
        minColHitPos s \<le> uint c \<and> uint c \<le> maxColHitPos s
        \<and> minRowHitPos s \<le> uint r \<and> uint r \<le> maxRowHitPos s
        \<and> bCIDfirstHit s \<le> uint b \<and> uint b \<le> bCIDlastHit s)"

definition grid_inv :: "geometry \<Rightarrow> Clusterizer \<Rightarrow> bool" where
  "grid_inv K s \<longleftrightarrow> nHits s = int (card (occupied K s)) \<and> on_matrix K s \<and> bracketed K s"

text \<open>
  What the batches of the drained-grid law look like: the constants are positive and the
  relative BCID fits the \<^verbatim>\<open>unsigned short\<close> local, every hit lies on the pixel
  matrix and in the BCID window with a ToT that is not the mark of an empty cell, and
  within an event the relative BCIDs do not decrease.
\<close>

definition geometry_ok :: "geometry \<Rightarrow> bool" where
  "geometry_ok K \<longleftrightarrow>
     0 < RAW_DATA_MAX_COLUMN K \<and> 0 < RAW_DATA_MAX_ROW K \<and> 0 < MAXBCID K \<and> MAXBCID K \<le> 65536"

definition hit_in_range :: "geometry \<Rightarrow> HitInfo \<Rightarrow> bool" where
  "hit_in_range K h \<longleftrightarrow>
     1 \<le> column h \<and> column h \<le> RAW_DATA_MAX_COLUMN K \<and> 1 \<le> row h \<and> row h \<le> RAW_DATA_MAX_ROW K
     \<and> relativeBCID h < MAXBCID K \<and> tot h < 65535"

definition bcid_ordered :: "HitInfo list \<Rightarrow> bool" where
  "bcid_ordered hits \<longleftrightarrow>
     sorted_wrt (\<lambda>h h'. eventNumber h = eventNumber h' \<longrightarrow> relativeBCID h \<le> relativeBCID h') hits"

text \<open>
  The invariant of the scan of \<^verbatim>\<open>clusterize\<close>: the grid invariants hold, every
  occupied cell is one of \<open>A\<close>, and the bounding box is still \<open>B\<close> while a hit
  is left. \<open>after_pos\<close> says that every occupied cell lies at or after a position of
  the scan (BCID outermost, then column, then row).
\<close>

definition scan_inv ::
  "geometry \<Rightarrow> nat set \<Rightarrow> int \<times> int \<times> int \<times> int \<times> int \<times> int \<Rightarrow> Clusterizer \<Rightarrow> bool" where
  "scan_inv K A B s \<longleftrightarrow>
     grid_inv K s \<and> occupied K s \<subseteq> A \<and> (nHits s \<noteq> 0 \<longrightarrow> bbox s = B)"

definition after_pos :: "geometry \<Rightarrow> Clusterizer \<Rightarrow> int \<Rightarrow> int \<Rightarrow> int \<Rightarrow> bool" where
  "after_pos K s b0 c0 r0 \<longleftrightarrow>
     (\<forall>c r b. in_range K c r b \<and> hitMap s (cell K c r b) \<noteq> - 1 \<longrightarrow>
        b0 < uint b \<or> (b0 = uint b \<and> (c0 < uint c \<or> (c0 = uint c \<and> r0 \<le> uint r))))"

definition scan_at ::
  "geometry \<Rightarrow> int \<times> int \<times> int \<times> int \<times> int \<times> int \<Rightarrow> int \<Rightarrow> int \<Rightarrow> int
     \<Rightarrow> bool option \<times> Clusterizer \<Rightarrow> bool" where
  "scan_at K B b0 c0 r0 st \<longleftrightarrow>
     grid_inv K (snd st)
     \<and> (fst st = None \<longrightarrow> bbox (snd st) = B \<and> after_pos K (snd st) b0 c0 r0)
     \<and> (fst st \<noteq> None \<longrightarrow> nHits (snd st) = 0)"

definition grid_of :: "Clusterizer \<Rightarrow> (nat \<Rightarrow> 16 word) \<times> int \<times> (int \<times> int \<times> int \<times> int \<times> int \<times> int)" where
  "grid_of s = (hitMap s, nHits s, bbox s)"

section \<open>Properties\<close>

subsection \<open>Index arithmetic\<close>

lemma lin_less:
  fixes c r C R :: nat
  assumes "c < C" "r < R"
  shows "c + r * C < C * R"
proof -
  have "c + r * C < (r + 1) * C" using assms by simp
  also have "\<dots> \<le> R * C" using assms by (intro mult_le_mono1) simp
  finally show ?thesis by (simp add: mult.commute)
qed

lemma lin_inj:
  fixes c r c' r' C :: nat
  assumes "c < C" "c' < C" "c + r * C = c' + r' * C"
  shows "c = c' \<and> r = r'"
proof -
  have "c = (c + r * C) mod C" using assms(1) by simp
  also have "\<dots> = (c' + r' * C) mod C" using assms(3) by simp
  also have "\<dots> = c'" using assms(2) by simp
  finally have c: "c = c'" .
  have "r = (c + r * C) div C" using assms(1) by simp
  also have "\<dots> = (c' + r' * C) div C" using assms(3) by simp
  also have "\<dots> = r'" using assms(2) by simp
  finally have "r = r'" .
  with c show ?thesis by simp
qed

lemma index_less:
  fixes c r b C R B :: nat
  assumes "c < C" "r < R" "b < B"
  shows "c + r * C + b * C * R < C * R * B"
  using lin_less[OF lin_less[OF assms(1,2)] assms(3)] by (simp add: algebra_simps)

lemma hitMapLength_eq:
  assumes "0 < RAW_DATA_MAX_COLUMN K" "0 < RAW_DATA_MAX_ROW K" "0 < MAXBCID K"
  shows "hitMapLength K = RAW_DATA_MAX_COLUMN K * RAW_DATA_MAX_ROW K * MAXBCID K"
proof -
  obtain C where C: "RAW_DATA_MAX_COLUMN K = Suc C"
    using assms by (cases "RAW_DATA_MAX_COLUMN K") auto
  obtain R where R: "RAW_DATA_MAX_ROW K = Suc R"
    using assms by (cases "RAW_DATA_MAX_ROW K") auto
  obtain B where B: "MAXBCID K = Suc B"
    using assms by (cases "MAXBCID K") auto
  show ?thesis unfolding hitMapLength_def C R B
    by (simp add: algebra_simps nat_add_distrib nat_mult_distrib)
qed

lemma chargeMapLength_eq:
  assumes "0 < RAW_DATA_MAX_COLUMN K" "0 < RAW_DATA_MAX_ROW K" "0 < MAXTOTLOOKUP K"
  shows "chargeMapLength K = RAW_DATA_MAX_COLUMN K * RAW_DATA_MAX_ROW K * MAXTOTLOOKUP K"
proof -
  obtain C where C: "RAW_DATA_MAX_COLUMN K = Suc C"
    using assms by (cases "RAW_DATA_MAX_COLUMN K") auto
  obtain R where R: "RAW_DATA_MAX_ROW K = Suc R"
    using assms by (cases "RAW_DATA_MAX_ROW K") auto
  obtain B where B: "MAXTOTLOOKUP K = Suc B"
    using assms by (cases "MAXTOTLOOKUP K") auto
  show ?thesis unfolding chargeMapLength_def C R B
    by (simp add: algebra_simps nat_add_distrib nat_mult_distrib)
qed

lemma clusterTotsLength_eq:
  assumes "0 < MAXTOTBINS K" "0 < MAXCLUSTERHITSBINS K"
  shows "clusterTotsLength K = MAXTOTBINS K * MAXCLUSTERHITSBINS K - 1"
proof -
  obtain T where T: "MAXTOTBINS K = Suc T" using assms(1) by (cases "MAXTOTBINS K") auto
  obtain S where S: "MAXCLUSTERHITSBINS K = Suc S" using assms(2) by (cases "MAXCLUSTERHITSBINS K") auto
  have e: "(int (Suc T) - 1) + (int (Suc S) - 1) * int (Suc T) = int (T + S * Suc T)"
    by (simp add: algebra_simps)
  show ?thesis unfolding clusterTotsLength_def T S e nat_int by simp
qed

text \<open>
  The clearing loop of \<^verbatim>\<open>clearResultHistograms\<close> writes one cell more than
  \<^verbatim>\<open>allocateResultHistograms\<close> allocates: its last write is to the cell behind
  the array.
\<close>

lemma clearResultHistograms_overrun:
  assumes "0 < MAXTOTBINS K" "0 < MAXCLUSTERHITSBINS K"
  shows "clusterTotsLength K < MAXTOTBINS K * MAXCLUSTERHITSBINS K"
    and "clusterTots (clearResultHistograms K s) (clusterTotsLength K) = 0"
proof -
  have "0 < MAXTOTBINS K * MAXCLUSTERHITSBINS K" using assms by simp
  then show 1: "clusterTotsLength K < MAXTOTBINS K * MAXCLUSTERHITSBINS K"
    by (simp add: clusterTotsLength_eq[OF assms])
  then show "clusterTots (clearResultHistograms K s) (clusterTotsLength K) = 0"
    by (simp add: clearResultHistograms_def)
qed

lemma cell_less:
  assumes "unat c < RAW_DATA_MAX_COLUMN K" "unat r < RAW_DATA_MAX_ROW K" "unat b < MAXBCID K"
  shows "cell K c r b < RAW_DATA_MAX_COLUMN K * RAW_DATA_MAX_ROW K * MAXBCID K"
  unfolding cell_def using assms by (rule index_less)

lemma cell_inj:
  assumes "unat c < RAW_DATA_MAX_COLUMN K" "unat r < RAW_DATA_MAX_ROW K"
    and "unat c' < RAW_DATA_MAX_COLUMN K" "unat r' < RAW_DATA_MAX_ROW K"
    and "cell K c r b = cell K c' r' b'"
  shows "c = c' \<and> r = r' \<and> b = b'"
proof -
  let ?C = "RAW_DATA_MAX_COLUMN K" and ?R = "RAW_DATA_MAX_ROW K"
  have 1: "unat c + unat r * ?C < ?C * ?R" "unat c' + unat r' * ?C < ?C * ?R"
    using assms by (auto intro: lin_less)
  have "(unat c + unat r * ?C) + unat b * (?C * ?R) = (unat c' + unat r' * ?C) + unat b' * (?C * ?R)"
    using assms(5) by (simp add: cell_def algebra_simps)
  from lin_inj[OF 1 this]
  have 2: "unat c + unat r * ?C = unat c' + unat r' * ?C" "unat b = unat b'" by auto
  from lin_inj[OF assms(1) assms(3) 2(1)] 2(2) show ?thesis by (simp add: word_unat_eq_iff)
qed

subsection \<open>Running the model on concrete input\<close>

text \<open>
  The simplifier runs the model from the outside in when it is told not to descend into
  the continuation of a sequencing step or the body of a loop before the step before it
  has been evaluated.
\<close>

lemma bnd_weak_cong: "m = m' \<Longrightarrow> bnd m f = bnd m' f"
  by simp

lemma for_each_weak_cong:
  "xs = ys \<Longrightarrow> st = st' \<Longrightarrow> for_each body xs st = for_each body ys st'"
  by simp

lemma for_while_weak_cong:
  "xs = ys \<Longrightarrow> st = st' \<Longrightarrow> for_while cond body xs st = for_while cond body ys st'"
  by simp

lemma case_prod_weak_cong: "p = q \<Longrightarrow> case_prod f p = case_prod f q"
  by simp

lemmas eval_congs =
  bnd_weak_cong for_each_weak_cong for_while_weak_cong case_prod_weak_cong let_weak_cong

lemma searchNextHits_numeral:
  "searchNextHits (numeral k) K c r b s = searchNextHits (Suc (pred_numeral k)) K c r b s"
  by (simp only: numeral_eq_Suc)

lemmas model_defs =
  addHits_def addHits_step_def clusterize_def clusterize_cell_def addCluster_def
  addClusterToResults_def addHitClusterInfo_def searchLoops_def probe_def directions_def
  addHit_def deleteHit_def hitExists_def readHitMap_def readChargeMap_def
  clusterHitsLength_def initHitMap_def clearResultHistograms_def clearActualClusterData_def
  clearActualEventVariables_def reset_def setStandardSettings_def Clusterizer_new_def
  setClusterHitInfoArray_def setClusterInfoArray_def observe_def emitted_def
  emitted_sizes_def getNclusters_def run_def createClusterHitInfoArray_set_def
  createClusterInfoArray_set_def setMinClusterHits_def setMaxClusterHits_def
  setMaxClusterHitTot_def setMaxHitTot_def Let_def upto.simps upt_rec searchNextHits_numeral

lemmas example_defs =
  example_geometry_def hit_def zero_memory_def blank_cluster_info_def blank_hit_info_def
  example_engine_def hot_hit_def cell_def hitMapLength_def chargeMapLength_def
  clusterTotsLength_def

subsection \<open>Sequencing and loops\<close>

lemma bnd_eq_ok: "bnd m f = ok y \<longleftrightarrow> (\<exists>x. m = ok x \<and> f x = ok y)"
proof (cases m)
  case None
  then show ?thesis by simp
next
  case (Some a)
  then show ?thesis by (cases a) simp_all
qed

lemma bnd_eq_throw: "bnd m f = throw e \<longleftrightarrow> m = throw e \<or> (\<exists>x. m = ok x \<and> f x = throw e)"
proof (cases m)
  case None
  then show ?thesis by simp
next
  case (Some a)
  then show ?thesis by (cases a) auto
qed

lemma bnd_eq_None: "bnd m f = None \<longleftrightarrow> m = None \<or> (\<exists>x. m = ok x \<and> f x = None)"
proof (cases m)
  case None
  then show ?thesis by simp
next
  case (Some a)
  then show ?thesis by (cases a) auto
qed

lemma for_each_neq_throw:
  assumes "\<And>i st. i \<in> set xs \<Longrightarrow> body i st \<noteq> throw e"
  shows "for_each body xs st \<noteq> throw e"
  using assms
proof (induction xs arbitrary: st)
  case Nil
  then show ?case by simp
next
  case (Cons i xs)
  then show ?case by (simp add: bnd_eq_throw)
qed

lemma for_while_neq_throw:
  assumes "\<And>i st. i \<in> set xs \<Longrightarrow> body i st \<noteq> throw e"
  shows "for_while cond body xs st \<noteq> throw e"
  using assms
proof (induction xs arbitrary: st)
  case Nil
  then show ?case by simp
next
  case (Cons i xs)
  then show ?case by (simp add: bnd_eq_throw)
qed

subsection \<open>Reading the hit map\<close>

lemma uint_less_nat: "(uint w < int n) = (unat w < n)"
  by (simp only: uint_nat of_nat_less_iff)

lemma in_range_cell:
  assumes "unat pCol < RAW_DATA_MAX_COLUMN K" "unat pRow < RAW_DATA_MAX_ROW K"
    "unat pRelBcid < MAXBCID K"
  shows "cell K pCol pRow pRelBcid < hitMapLength K"
proof -
  have "hitMapLength K = RAW_DATA_MAX_COLUMN K * RAW_DATA_MAX_ROW K * MAXBCID K"
    using assms by (intro hitMapLength_eq) auto
  with cell_less[OF assms] show ?thesis by simp
qed

lemma hitExists_eq:
  "hitExists K s pCol pRow pRelBcid =
     ok (unat pCol < RAW_DATA_MAX_COLUMN K \<and> unat pRow < RAW_DATA_MAX_ROW K
         \<and> unat pRelBcid < MAXBCID K \<and> hitMap s (cell K pCol pRow pRelBcid) \<noteq> - 1)"
proof (cases "unat pCol < RAW_DATA_MAX_COLUMN K \<and> unat pRow < RAW_DATA_MAX_ROW K
    \<and> unat pRelBcid < MAXBCID K")
  case True
  then have "cell K pCol pRow pRelBcid < hitMapLength K" by (intro in_range_cell) auto
  with True show ?thesis
    by (simp add: hitExists_def readHitMap_def uint_less_nat)
next
  case False
  then show ?thesis
    by (auto simp add: hitExists_def uint_less_nat)
qed

lemma hitExists_True_cell:
  assumes "hitExists K s pCol pRow pRelBcid = ok True"
  shows "cell K pCol pRow pRelBcid < hitMapLength K"
  using assms by (intro in_range_cell) (simp_all add: hitExists_eq)


lemma probe_in_bounds:
  assumes "\<And>c r b s. hitExists K s c r b = ok True \<Longrightarrow> rec c r b s \<noteq> throw (OutOfBounds HitMapArray)"
  shows "probe rec K pCol pRow iDbCID iDx iDy d st \<noteq> throw (OutOfBounds HitMapArray)"
proof (cases st)
  case (Pair tHit s)
  show ?thesis
    unfolding Pair probe_def prod.case
    using assms by (auto simp: bnd_eq_throw hitExists_eq)
qed

lemma searchLoops_in_bounds:
  assumes "\<And>c r b s. hitExists K s c r b = ok True \<Longrightarrow> rec c r b s \<noteq> throw (OutOfBounds HitMapArray)"
  shows "searchLoops rec K pCol pRow s \<noteq> throw (OutOfBounds HitMapArray)"
proof -
  have "for_while (\<lambda>iDbCID (tHit, s1). iDbCID \<le> bCIDlastHit s1 mod 2 ^ 32)
            (\<lambda>iDbCID (tHit, s1).
               for_each (\<lambda>iDx (tHit, s2).
                  for_each (\<lambda>iDy (tHit, s3).
                     for_each (probe rec K pCol pRow iDbCID iDx iDy) directions
                       (tHit, s3\<lparr>runTime := runTime s3 + 1\<rparr>))
                    [1 .. sint (dy s2)] (tHit, s2))
                 [1 .. sint (dx s1)] (tHit, s1)) xs st \<noteq> throw (OutOfBounds HitMapArray)" for xs st
    by (intro for_while_neq_throw)
       (auto intro!: for_each_neq_throw probe_in_bounds assms split: prod.splits)
  then show ?thesis
    unfolding searchLoops_def by (auto simp: bnd_eq_throw)
qed

lemma searchNextHits_in_bounds:
  "hitExists K s pCol pRow pRelBcid = ok True
     \<Longrightarrow> searchNextHits n K pCol pRow pRelBcid s \<noteq> throw (OutOfBounds HitMapArray)"
proof (induction n arbitrary: s pCol pRow pRelBcid)
  case 0
  then show ?case by simp
next
  case (Suc n)
  have c: "cell K pCol pRow pRelBcid < hitMapLength K"
    using Suc.prems by (rule hitExists_True_cell)
  have rec: "searchLoops (searchNextHits n K) K pCol pRow s' \<noteq> throw (OutOfBounds HitMapArray)" for s'
    by (intro searchLoops_in_bounds Suc.IH)
  show ?case
    using c rec
    by (auto simp: bnd_eq_throw readHitMap_def readChargeMap_def deleteHit_def Let_def
          split: if_splits)
qed


lemma wrapped_coordinate:
  fixes p :: "16 word"
  assumes "uint p < i" "i \<le> 2 ^ 16 - int N"
  shows "N \<le> unat (word_of_int (uint p - i) :: 16 word)"
proof -
  have "uint (word_of_int (uint p - i) :: 16 word) = (uint p - i) mod 2 ^ 16"
    by (subst uint_word_of_int) simp
  also have "\<dots> = (uint p - i + 2 ^ 16) mod 2 ^ 16"
    by simp
  also have "\<dots> = uint p - i + 2 ^ 16"
    using assms uint_ge_0[of p] by (intro mod_pos_pos_trivial) linarith+
  finally have "int N \<le> uint (word_of_int (uint p - i) :: 16 word)"
    using assms uint_ge_0[of p] by linarith
  then show ?thesis by (simp only: uint_nat of_nat_le_iff)
qed

text \<open>
  Claim C10. \<^verbatim>\<open>hitExists\<close> never reads the hit map outside its allocated length
  (the error \<open>OutOfBounds HitMapArray\<close> cannot come out of it). It answers false,
  whatever the hit map holds, when the column, the row or the relative BCID is out of
  range; that includes the column \<open>pCol - iDx\<close> and the row \<open>pRow - iDy\<close> of a
  probe to the left or downwards that fall below zero and wrap around in the
  \<^verbatim>\<open>unsigned short\<close> parameter. A flood fill that starts on an existing hit never
  leaves the hit map either, in any of its frames and probes.
\<close>

theorem hit_map_access_in_bounds:
  "hitExists K s pCol pRow pRelBcid \<noteq> throw (OutOfBounds HitMapArray)
   \<and> (RAW_DATA_MAX_COLUMN K \<le> unat pCol \<or> RAW_DATA_MAX_ROW K \<le> unat pRow
        \<or> MAXBCID K \<le> unat pRelBcid
      \<longrightarrow> hitExists K (s\<lparr>hitMap := m\<rparr>) pCol pRow pRelBcid = ok False)
   \<and> (uint pCol < iDx \<and> iDx \<le> 2 ^ 16 - int (RAW_DATA_MAX_COLUMN K)
      \<longrightarrow> hitExists K s (fst (neighbour Left pCol pRow iDx iDy))
            (snd (neighbour Left pCol pRow iDx iDy)) pRelBcid = ok False)
   \<and> (uint pRow < iDy \<and> iDy \<le> 2 ^ 16 - int (RAW_DATA_MAX_ROW K)
      \<longrightarrow> hitExists K s (fst (neighbour Down pCol pRow iDx iDy))
            (snd (neighbour Down pCol pRow iDx iDy)) pRelBcid = ok False)
   \<and> (hitExists K s pCol pRow pRelBcid = ok True
      \<longrightarrow> searchNextHits n K pCol pRow pRelBcid s \<noteq> throw (OutOfBounds HitMapArray))"
proof (intro conjI impI)
  show "hitExists K s pCol pRow pRelBcid \<noteq> throw (OutOfBounds HitMapArray)"
    by (simp add: hitExists_eq)
next
  assume "RAW_DATA_MAX_COLUMN K \<le> unat pCol \<or> RAW_DATA_MAX_ROW K \<le> unat pRow
        \<or> MAXBCID K \<le> unat pRelBcid"
  then show "hitExists K (s\<lparr>hitMap := m\<rparr>) pCol pRow pRelBcid = ok False"
    by (auto simp: hitExists_eq)
next
  assume "uint pCol < iDx \<and> iDx \<le> 2 ^ 16 - int (RAW_DATA_MAX_COLUMN K)"
  then have "RAW_DATA_MAX_COLUMN K \<le> unat (word_of_int (uint pCol - iDx) :: 16 word)"
    by (intro wrapped_coordinate) auto
  then show "hitExists K s (fst (neighbour Left pCol pRow iDx iDy))
            (snd (neighbour Left pCol pRow iDx iDy)) pRelBcid = ok False"
    by (simp add: hitExists_eq del: word_of_int_uint)
next
  assume "uint pRow < iDy \<and> iDy \<le> 2 ^ 16 - int (RAW_DATA_MAX_ROW K)"
  then have "RAW_DATA_MAX_ROW K \<le> unat (word_of_int (uint pRow - iDy) :: 16 word)"
    by (intro wrapped_coordinate) auto
  then show "hitExists K s (fst (neighbour Down pCol pRow iDx iDy))
            (snd (neighbour Down pCol pRow iDx iDy)) pRelBcid = ok False"
    by (simp add: hitExists_eq)
next
  assume "hitExists K s pCol pRow pRelBcid = ok True"
  then show "searchNextHits n K pCol pRow pRelBcid s \<noteq> throw (OutOfBounds HitMapArray)"
    by (rule searchNextHits_in_bounds)
qed

theorem hit_map_access_in_bounds_witness:
  "hitExists example_geometry zero_memory 80 9 0 = ok False
   \<and> hitExists example_geometry zero_memory (fst (neighbour Left 0 9 1 1))
         (snd (neighbour Left 0 9 1 1)) 0 = ok False
   \<and> hitExists example_geometry zero_memory (fst (neighbour Down 4 0 1 1))
         (snd (neighbour Down 4 0 1 1)) 0 = ok False
   \<and> hitExists example_geometry zero_memory 4 9 0 = ok True
   \<and> searchNextHits 1 example_geometry 4 9 0 zero_memory \<noteq> throw (OutOfBounds HitMapArray)"
  using hit_map_access_in_bounds [where K = example_geometry and s = zero_memory and pCol = 80
      and pRow = 9 and pRelBcid = 0 and m = "hitMap zero_memory" and iDx = 1 and iDy = 1 and n = 1]
    hit_map_access_in_bounds [where K = example_geometry and s = zero_memory and pCol = 0
      and pRow = 9 and pRelBcid = 0 and m = "hitMap zero_memory" and iDx = 1 and iDy = 1 and n = 1]
    hit_map_access_in_bounds [where K = example_geometry and s = zero_memory and pCol = 4
      and pRow = 0 and pRelBcid = 0 and m = "hitMap zero_memory" and iDx = 1 and iDy = 1 and n = 1]
    hit_map_access_in_bounds [where K = example_geometry and s = zero_memory and pCol = 4
      and pRow = 9 and pRelBcid = 0 and m = "hitMap zero_memory" and iDx = 1 and iDy = 1 and n = 1]
  by (simp add: hitExists_eq example_defs)

subsection \<open>Scenarios\<close>

lemma take2_update:
  "2 \<le> length xs \<Longrightarrow> take (Suc (Suc 0)) (xs[0 := a, Suc 0 := b]) = [a, b]"
  by (cases xs; cases "tl xs") auto

lemma cell_eq_iff:
  assumes "unat c < RAW_DATA_MAX_COLUMN K" "unat r < RAW_DATA_MAX_ROW K"
    and "unat c' < RAW_DATA_MAX_COLUMN K" "unat r' < RAW_DATA_MAX_ROW K"
  shows "(cell K c r b = cell K c' r' b') = (c = c' \<and> r = r' \<and> b = b')"
  using cell_inj[OF assms] by auto

text \<open>
  Claim C8. On a freshly constructed engine with a summary buffer of at least one slot,
  for every geometry that holds the pixel and whose ToT histogram holds the cell
  \<open>H_tot[1, 7]\<close> inside its allocation, the batch of the single hit (event 1, column
  5, row 10, relative BCID 0, ToT 7) makes \<^verbatim>\<open>addHits\<close> return with one cluster:
  event number 1, size 1, ToT 7, seed column 5 and seed row 10 (both 1-based), and the
  histograms then hold \<open>H_size[1] = 1\<close>, \<open>H_tot[1, 7] = 1\<close> and \<open>H_tot[0, 7] = 1\<close>.
\<close>

theorem single_hit_cluster:
  assumes K: "5 \<le> RAW_DATA_MAX_COLUMN K" "10 \<le> RAW_DATA_MAX_ROW K" "1 \<le> MAXBCID K"
      "8 \<le> MAXTOTBINS K" "2 \<le> MAXCLUSTERHITSBINS K" "8 \<le> MAXTOTLOOKUP K"
      "7 + 1 * MAXTOTBINS K < clusterTotsLength K"
    and h: "eventNumber h = 1" "column h = 5" "row h = 10" "relativeBCID h = 0" "tot h = 7"
    and buf: "0 < rSize" "0 < length buf"
  shows "\<exists>s. addHits (Suc n) K [h] (setClusterInfoArray buf rSize (Clusterizer_new K mem)) = ok s
     \<and> Nclusters s = 1
     \<and> c_eventNumber (clusterInfo s ! 0) = 1
     \<and> c_size (clusterInfo s ! 0) = 1
     \<and> c_Tot (clusterInfo s ! 0) = 7
     \<and> c_seed_column (clusterInfo s ! 0) = 5
     \<and> c_seed_row (clusterInfo s ! 0) = 10
     \<and> clusterHits s 1 = 1
     \<and> clusterTots s (7 + 1 * MAXTOTBINS K) = 1
     \<and> clusterTots s 7 = 1"
proof -
  have len: "hitMapLength K = RAW_DATA_MAX_COLUMN K * RAW_DATA_MAX_ROW K * MAXBCID K"
    using K by (intro hitMapLength_eq) auto
  have c: "cell K 4 9 0 < RAW_DATA_MAX_COLUMN K * RAW_DATA_MAX_ROW K * MAXBCID K"
    using K by (intro cell_less) auto
  have q: "4 + 9 * RAW_DATA_MAX_COLUMN K + 7 * RAW_DATA_MAX_COLUMN K * RAW_DATA_MAX_ROW K
             < chargeMapLength K"
    using K index_less[of 4 "RAW_DATA_MAX_COLUMN K" 9 "RAW_DATA_MAX_ROW K" 7 "MAXTOTLOOKUP K"]
    by (simp add: chargeMapLength_eq)
  have "2 * MAXTOTBINS K \<le> MAXTOTBINS K * MAXCLUSTERHITSBINS K"
    using K by (simp add: mult.commute)
  then have t: "7 + MAXTOTBINS K < MAXTOTBINS K * MAXCLUSTERHITSBINS K"
      "7 < MAXTOTBINS K * MAXCLUSTERHITSBINS K"
    using K by linarith+
  have cc: "int (RAW_DATA_MAX_COLUMN K) - 1 = 4 \<or> 4 < int (RAW_DATA_MAX_COLUMN K) - 1"
    using K by linarith
  have rr: "int (RAW_DATA_MAX_ROW K) - 1 = 9 \<or> 9 < int (RAW_DATA_MAX_ROW K) - 1"
    using K by linarith
  have a: "7 + MAXTOTBINS K < clusterTotsLength K" "7 < clusterTotsLength K"
    using K by simp_all
  note facts = K h buf len c q t a
  from cc rr show ?thesis
  proof (elim disjE)
    assume "int (RAW_DATA_MAX_COLUMN K) - 1 = 4" "int (RAW_DATA_MAX_ROW K) - 1 = 9"
    with facts show ?thesis
      by (simp add: model_defs nat_add_distrib cong: eval_congs)
  next
    assume "int (RAW_DATA_MAX_COLUMN K) - 1 = 4" "9 < int (RAW_DATA_MAX_ROW K) - 1"
    with facts show ?thesis
      by (simp add: model_defs nat_add_distrib cong: eval_congs)
  next
    assume "4 < int (RAW_DATA_MAX_COLUMN K) - 1" "int (RAW_DATA_MAX_ROW K) - 1 = 9"
    with facts show ?thesis
      by (simp add: model_defs nat_add_distrib cong: eval_congs)
  next
    assume "4 < int (RAW_DATA_MAX_COLUMN K) - 1" "9 < int (RAW_DATA_MAX_ROW K) - 1"
    with facts show ?thesis
      by (simp add: model_defs nat_add_distrib cong: eval_congs)
  qed
qed

theorem single_hit_cluster_witness:
  "\<exists>s. addHits (Suc 0) example_geometry [hit 1 5 10 0 7]
          (setClusterInfoArray [blank_cluster_info] 1 (Clusterizer_new example_geometry zero_memory)) = ok s
     \<and> Nclusters s = 1
     \<and> c_eventNumber (clusterInfo s ! 0) = 1
     \<and> c_size (clusterInfo s ! 0) = 1
     \<and> c_Tot (clusterInfo s ! 0) = 7
     \<and> c_seed_column (clusterInfo s ! 0) = 5
     \<and> c_seed_row (clusterInfo s ! 0) = 10
     \<and> clusterHits s 1 = 1
     \<and> clusterTots s (7 + 1 * MAXTOTBINS example_geometry) = 1
     \<and> clusterTots s 7 = 1"
  by (rule single_hit_cluster) (simp_all add: example_geometry_def hit_def clusterTotsLength_def)

text \<open>
  Claim C2, amended. With default settings (\<^verbatim>\<open>_DbCID\<close> = 4) the batch of two
  hits of event 1 on pixel (5, 10) at relative BCID 0 and 3 gives two clusters of size 1,
  not one cluster of size 2; the batch whose second hit lies on the neighbour pixel
  (5, 11) at relative BCID 3 gives one cluster of size 2.
\<close>

theorem temporal_window_joins_neighbours_only:
  assumes K: "6 \<le> RAW_DATA_MAX_COLUMN K" "12 \<le> RAW_DATA_MAX_ROW K" "5 \<le> MAXBCID K"
      "9 \<le> MAXTOTBINS K" "3 \<le> MAXCLUSTERHITSBINS K" "5 \<le> MAXTOTLOOKUP K"
      "8 + 2 * MAXTOTBINS K < clusterTotsLength K"
    and buf: "2 \<le> rSize" "2 \<le> length buf"
  shows "observe emitted_sizes
           (addHits (Suc (Suc n)) K [hit 1 5 10 0 4, hit 1 5 10 3 4]
              (setClusterInfoArray buf rSize (Clusterizer_new K mem))) = ok [1, 1]
       \<and> observe emitted_sizes
           (addHits (Suc (Suc n)) K [hit 1 5 10 0 4, hit 1 5 11 3 4]
              (setClusterInfoArray buf rSize (Clusterizer_new K mem))) = ok [2]"
proof -
  have len: "hitMapLength K = RAW_DATA_MAX_COLUMN K * RAW_DATA_MAX_ROW K * MAXBCID K"
    using K by (intro hitMapLength_eq) auto
  have c: "\<And>c r b. unat c < RAW_DATA_MAX_COLUMN K \<Longrightarrow> unat r < RAW_DATA_MAX_ROW K
      \<Longrightarrow> unat b < MAXBCID K
      \<Longrightarrow> cell K c r b < RAW_DATA_MAX_COLUMN K * RAW_DATA_MAX_ROW K * MAXBCID K"
    by (intro cell_less) auto
  have q: "\<And>c r b. c < RAW_DATA_MAX_COLUMN K \<Longrightarrow> r < RAW_DATA_MAX_ROW K \<Longrightarrow> b < MAXTOTLOOKUP K
      \<Longrightarrow> c + r * RAW_DATA_MAX_COLUMN K + b * RAW_DATA_MAX_COLUMN K * RAW_DATA_MAX_ROW K
            < chargeMapLength K"
    using K index_less by (simp add: chargeMapLength_eq)
  have "3 * MAXTOTBINS K \<le> MAXTOTBINS K * MAXCLUSTERHITSBINS K"
    using K by (simp add: mult.commute)
  then have t: "\<And>x. x < 3 * MAXTOTBINS K \<Longrightarrow> x < MAXTOTBINS K * MAXCLUSTERHITSBINS K"
    using K by linarith
  have ne: "buf \<noteq> []"
    using buf by auto
  have a: "4 + MAXTOTBINS K < clusterTotsLength K" "4 < clusterTotsLength K"
      "8 + MAXTOTBINS K * 2 < clusterTotsLength K" "8 < clusterTotsLength K"
    using K by simp_all
  note facts = K buf len c q t ne a
  have "observe emitted_sizes
           (addHits (Suc (Suc n)) K [hit 1 5 10 0 4, hit 1 5 10 3 4]
              (setClusterInfoArray buf rSize (Clusterizer_new K mem))) = ok [1, 1]"
    using facts
    by (simp add: model_defs hit_def nat_add_distrib cell_eq_iff take2_update cong: eval_congs)
  moreover have "observe emitted_sizes
           (addHits (Suc (Suc n)) K [hit 1 5 10 0 4, hit 1 5 11 3 4]
              (setClusterInfoArray buf rSize (Clusterizer_new K mem))) = ok [2]"
    using facts
    by (simp add: model_defs hit_def nat_add_distrib cell_eq_iff take_Suc_conv_app_nth cong: eval_congs)
  ultimately show ?thesis by simp
qed

theorem temporal_window_joins_neighbours_only_witness:
  "observe emitted_sizes
     (addHits 2 example_geometry [hit 1 5 10 0 4, hit 1 5 10 3 4] example_engine) = ok [1, 1]
   \<and> observe emitted_sizes
     (addHits 2 example_geometry [hit 1 5 10 0 4, hit 1 5 11 3 4] example_engine) = ok [2]"
  using temporal_window_joins_neighbours_only
    [of example_geometry 2 "[blank_cluster_info, blank_cluster_info]" 0 zero_memory]
  by (simp add: example_geometry_def example_engine_def numeral_2_eq_2 clusterTotsLength_def)

theorem same_pixel_one_cluster_counterexample:
  "observe getNclusters
     (addHits 2 example_geometry [hit 1 5 10 0 4, hit 1 5 10 3 4] example_engine) = ok 2
   \<and> observe emitted_sizes
     (addHits 2 example_geometry [hit 1 5 10 0 4, hit 1 5 10 3 4] example_engine) \<noteq> ok [2]"
  by (simp add: model_defs example_defs cong: eval_congs)

subsection \<open>Settings\<close>

lemma unat_of_nat_small:
  "x < 2 ^ LENGTH('a) \<Longrightarrow> unat (word_of_nat x :: 'a::len word) = x"
  by (simp add: unat_of_nat)

lemma clamp_bound:
  assumes "0 < N" "N < 2 ^ 31"
  shows "unat (word_of_nat N - 1 :: 32 word) = N - 1"
proof -
  have "(word_of_nat N - 1 :: 32 word) = word_of_nat (N - 1)"
    using assms by (simp add: of_nat_diff)
  moreover have "unat (word_of_nat (N - 1) :: 32 word) = N - 1"
    using assms by (intro unat_of_nat_small) simp
  ultimately show ?thesis by simp
qed

text \<open>
  Claim C9. For a geometry whose constants are positive \<^verbatim>\<open>int\<close> values, each of the
  three setters of the adjacency window returns a state and no error:
  \<^verbatim>\<open>setXclusterDistance\<close> stores \<open>v\<close> exactly when \<open>1 < v < COLS - 1\<close>,
  \<^verbatim>\<open>setYclusterDistance\<close> exactly when \<open>1 < v < ROWS - 1\<close>, and
  \<^verbatim>\<open>setBCIDclusterDistance\<close> exactly when \<open>v < MAXBCID - 1\<close>; otherwise the state,
  and with it the previous setting, is unchanged.
\<close>

theorem setters_clamp:
  assumes "0 < RAW_DATA_MAX_COLUMN K" "RAW_DATA_MAX_COLUMN K < 2 ^ 31"
    and "0 < RAW_DATA_MAX_ROW K" "RAW_DATA_MAX_ROW K < 2 ^ 31"
    and "0 < MAXBCID K" "MAXBCID K < 2 ^ 31"
  shows "setXclusterDistance K v s
           = (if 1 < unat v \<and> unat v < RAW_DATA_MAX_COLUMN K - 1 then s\<lparr>dx := v\<rparr> else s)
       \<and> setYclusterDistance K v s
           = (if 1 < unat v \<and> unat v < RAW_DATA_MAX_ROW K - 1 then s\<lparr>dy := v\<rparr> else s)
       \<and> setBCIDclusterDistance K v s
           = (if unat v < MAXBCID K - 1 then s\<lparr>DbCID := v\<rparr> else s)"
  using assms
  by (simp add: setXclusterDistance_def setYclusterDistance_def setBCIDclusterDistance_def
        clamp_bound word_less_nat_alt)

theorem setters_clamp_witness:
  "dx (setXclusterDistance example_geometry 3 (Clusterizer_new example_geometry zero_memory)) = 3
   \<and> dy (setYclusterDistance example_geometry 3 (Clusterizer_new example_geometry zero_memory)) = 3
   \<and> DbCID (setBCIDclusterDistance example_geometry 3 (Clusterizer_new example_geometry zero_memory)) = 3"
  using setters_clamp [of example_geometry 3 "Clusterizer_new example_geometry zero_memory"]
  by (simp add: example_geometry_def)

subsection \<open>Dropped hits\<close>

text \<open>
  Claim C7, amended. For a hit whose ToT is above \<^verbatim>\<open>_maxHitTot\<close> (and fits the
  \<^verbatim>\<open>unsigned short\<close> local), \<^verbatim>\<open>addHit\<close> returns before it touches the hit map,
  the live-hit count, the bounding box or the per-hit annotation, but after it has ORed the
  event status of the hit into the running event status: that field is the only one that
  changes.
\<close>

theorem dropped_hit_changes_event_status_only:
  assumes "tot (hitInfo s ! pHitIndex) < 2 ^ 16"
    and "unat (maxHitTot s) < tot (hitInfo s ! pHitIndex)"
  shows "addHit K pHitIndex s
           = ok (s\<lparr>actualEventStatus := eventStatus (hitInfo s ! pHitIndex) OR actualEventStatus s\<rparr>)"
proof -
  have "unat (word_of_nat (tot (hitInfo s ! pHitIndex)) :: 16 word) = tot (hitInfo s ! pHitIndex)"
    using assms(1) by (intro unat_of_nat_small) simp
  with assms(2) show ?thesis
    by (simp add: addHit_def Let_def)
qed

theorem dropped_hit_changes_event_status_only_witness:
  "addHit example_geometry 0 ((Clusterizer_new example_geometry zero_memory)\<lparr>hitInfo := [hot_hit]\<rparr>)
     = ok ((Clusterizer_new example_geometry zero_memory)\<lparr>hitInfo := [hot_hit], actualEventStatus := 1\<rparr>)"
  using dropped_hit_changes_event_status_only
    [of "(Clusterizer_new example_geometry zero_memory)\<lparr>hitInfo := [hot_hit]\<rparr>" 0 example_geometry]
  by (simp add: hot_hit_def hit_def model_defs zero_memory_def)

theorem dropped_hit_event_status_counterexample:
  "unat (maxHitTot ((Clusterizer_new example_geometry zero_memory)\<lparr>hitInfo := [hot_hit]\<rparr>)) < tot hot_hit
   \<and> actualEventStatus ((Clusterizer_new example_geometry zero_memory)\<lparr>hitInfo := [hot_hit]\<rparr>) = 0
   \<and> observe actualEventStatus
         (addHit example_geometry 0 ((Clusterizer_new example_geometry zero_memory)\<lparr>hitInfo := [hot_hit]\<rparr>))
       = ok 1"
  by (simp add: hot_hit_def model_defs example_defs cong: eval_congs)

subsection \<open>Aborted clusters and per-hit annotations\<close>

text \<open>
  Claim C1 (the code departs from it). With \<^verbatim>\<open>_maxClusterHitTot\<close> set to 3, the
  single hit of ToT 4 makes a cluster of size 1 with the abort flag set.
  \<^verbatim>\<open>addClusterToResults\<close> tests the flag and leaves the histograms alone, but
  \<^verbatim>\<open>addCluster\<close> does not test it: the summary is written and the cluster is counted.
\<close>

theorem aborted_cluster_is_committed:
  "observe abortCluster
     (addHits 1 example_geometry [hit 1 5 10 0 4] (setMaxClusterHitTot 3 example_engine)) = ok True
   \<and> observe emitted
       (addHits 1 example_geometry [hit 1 5 10 0 4] (setMaxClusterHitTot 3 example_engine))
     = ok [\<lparr>c_eventNumber = 1, c_ID = 0, c_size = 1, c_Tot = 4, c_seed_column = 5,
            c_seed_row = 10, c_eventStatus = 0\<rparr>]
   \<and> observe getNclusters
       (addHits 1 example_geometry [hit 1 5 10 0 4] (setMaxClusterHitTot 3 example_engine)) = ok 1
   \<and> observe (\<lambda>s. clusterHits s 1)
       (addHits 1 example_geometry [hit 1 5 10 0 4] (setMaxClusterHitTot 3 example_engine)) = ok 0"
  by (simp add: model_defs example_defs cong: eval_congs)

text \<open>
  Claim C3 (the code departs from it). \<^verbatim>\<open>addHitClusterInfo\<close> has an empty body, so
  closing an event stamps nothing: with per-hit annotation switched on, the annotation of
  the one processed hit still holds 666 in \<^verbatim>\<open>clusterSize\<close> and \<^verbatim>\<open>nCluster\<close>
  after \<^verbatim>\<open>addHits\<close> has returned.
\<close>

theorem annotation_sentinels_remain:
  "observe (map clusterSize \<circ> clusterHitInfo)
     (addHits 1 example_geometry [hit 1 5 10 0 7]
        (setClusterHitInfoArray [blank_hit_info] 1 (createClusterHitInfoArray_set True example_engine)))
     = ok [666]
   \<and> observe (map nCluster \<circ> clusterHitInfo)
     (addHits 1 example_geometry [hit 1 5 10 0 7]
        (setClusterHitInfoArray [blank_hit_info] 1 (createClusterHitInfoArray_set True example_engine)))
     = ok [666]"
  by (simp add: model_defs example_defs cong: eval_congs)

subsection \<open>Where the laws of the spec stop\<close>

text \<open>
  Two hits of one event whose relative BCIDs go down (5, then 2): the scan starts at the
  BCID of the first hit, so the second hit is never visited and stays in the grid.
\<close>

theorem grid_not_drained_counterexample:
  "observe nHits
     (addHits 1 example_geometry [hit 1 5 10 5 4, hit 1 5 10 2 4] example_engine) = ok 1"
  by (simp add: model_defs example_defs cong: eval_congs)

text \<open>
  \<^verbatim>\<open>reset\<close> keeps the settings: after \<^verbatim>\<open>setMinClusterHits(2)\<close> and a reset, a
  single hit gives no cluster, on a fresh engine it gives one.
\<close>

theorem reset_keeps_settings_counterexample:
  "observe getNclusters
     (run 1 example_geometry [AddHits [hit 1 5 10 0 7]]
        (reset example_geometry (setMinClusterHits 2 example_engine))) = ok 0
   \<and> observe getNclusters
     (run 1 example_geometry [AddHits [hit 1 5 10 0 7]] example_engine) = ok 1"
  by (simp add: model_defs example_defs cong: eval_congs)

text \<open>
  \<^verbatim>\<open>addHits\<close> sets the cluster count to zero when it starts: a batch of two events
  fed whole reports two clusters, fed as two batches the second call reports one.
\<close>

theorem split_batch_counterexample:
  "observe getNclusters
     (addHits 1 example_geometry ([hit 1 5 10 0 4] @ [hit 2 5 10 0 4]) example_engine) = ok 2
   \<and> observe getNclusters
     (bnd (addHits 1 example_geometry [hit 1 5 10 0 4] example_engine)
        (addHits 1 example_geometry [hit 2 5 10 0 4])) = ok 1"
  by (simp add: model_defs example_defs cong: eval_congs)

subsection \<open>Invariants of the flood fill\<close>

lemma bnd_assoc: "bnd (bnd m f) g = bnd m (\<lambda>x. bnd (f x) g)"
proof (cases m)
  case None
  then show ?thesis by simp
next
  case (Some a)
  then show ?thesis by (cases a) simp_all
qed

lemma searchNextHits_Suc:
  "searchNextHits (Suc n) K pCol pRow pRelBcid s =
     bnd (searchNextHits_head K pCol pRow pRelBcid s) (\<lambda>(empty, s7).
       if empty then ok s7 else searchLoops (searchNextHits n K) K pCol pRow s7)"
  by (simp add: searchNextHits_head_def Let_def bnd_assoc)

lemma for_each_invariant:
  assumes "Q st" and "for_each body xs st = ok st'"
    and "\<And>i st st'. i \<in> set xs \<Longrightarrow> Q st \<Longrightarrow> body i st = ok st' \<Longrightarrow> Q st'"
  shows "Q st'"
  using assms
proof (induction xs arbitrary: st)
  case Nil
  then show ?case by simp
next
  case (Cons i xs)
  from Cons.prems(2) obtain st1 where 1: "body i st = ok st1" and 2: "for_each body xs st1 = ok st'"
    by (auto simp: bnd_eq_ok)
  have "Q st1" using Cons.prems(1,3) 1 by auto
  from Cons.IH[OF this 2] Cons.prems(3) show ?case by auto
qed

lemma for_while_invariant:
  assumes "Q st" and "for_while cond body xs st = ok st'"
    and "\<And>i st st'. i \<in> set xs \<Longrightarrow> Q st \<Longrightarrow> cond i st \<Longrightarrow> body i st = ok st' \<Longrightarrow> Q st'"
  shows "Q st'"
  using assms
proof (induction xs arbitrary: st)
  case Nil
  then show ?case by simp
next
  case (Cons i xs)
  show ?case
  proof (cases "cond i st")
    case True
    with Cons.prems(2) obtain st1 where 1: "body i st = ok st1"
      and 2: "for_while cond body xs st1 = ok st'"
      by (auto simp: bnd_eq_ok)
    have "Q st1" using Cons.prems(1,3) 1 True by auto
    from Cons.IH[OF this 2] Cons.prems(3) show ?thesis by auto
  next
    case False
    with Cons.prems show ?thesis by simp
  qed
qed

lemma probe_invariant:
  assumes rec: "\<And>c r b s s'. I s \<Longrightarrow> hitExists K s c r b = ok True \<Longrightarrow> rec c r b s = ok s' \<Longrightarrow> I s'"
    and "I (snd st)" "probe rec K pCol pRow iDbCID iDx iDy d st = ok st'"
  shows "I (snd st')"
proof (cases st)
  case (Pair tHit s)
  from assms(3) obtain e where e: "hitExists K s (fst (neighbour d pCol pRow iDx iDy))
        (snd (neighbour d pCol pRow iDx iDy)) (word_of_int iDbCID) = ok e"
    and r: "(if e \<and> \<not> tHit d
             then bnd (rec (fst (neighbour d pCol pRow iDx iDy)) (snd (neighbour d pCol pRow iDx iDy))
                        (word_of_int iDbCID) s) (\<lambda>s'. ok (tHit(d := True), s'))
             else ok (tHit, s)) = ok st'"
    unfolding Pair probe_def prod.case by (auto simp: bnd_eq_ok)
  show ?thesis
  proof (cases "e \<and> \<not> tHit d")
    case True
    with r obtain s' where "rec (fst (neighbour d pCol pRow iDx iDy)) (snd (neighbour d pCol pRow iDx iDy))
                        (word_of_int iDbCID) s = ok s'" "st' = (tHit(d := True), s')"
      by (auto simp: bnd_eq_ok)
    with rec[of s] assms(2) e True Pair show ?thesis by auto
  next
    case False
    with r assms(2) Pair show ?thesis by auto
  qed
qed

lemma searchLoops_invariant:
  assumes rec: "\<And>c r b s s'. I s \<Longrightarrow> hitExists K s c r b = ok True \<Longrightarrow> rec c r b s = ok s' \<Longrightarrow> I s'"
    and tick: "\<And>s. I s \<Longrightarrow> I (s\<lparr>runTime := runTime s + 1\<rparr>)"
    and "I s" "searchLoops rec K pCol pRow s = ok s'"
  shows "I s'"
proof -
  let ?Q = "\<lambda>st :: (direction \<Rightarrow> bool) \<times> Clusterizer. I (snd st)"
  from assms(4) obtain tHit where
    "for_while (\<lambda>iDbCID (tHit, s1). iDbCID \<le> bCIDlastHit s1 mod 2 ^ 32)
            (\<lambda>iDbCID (tHit, s1).
               for_each (\<lambda>iDx (tHit, s2).
                  for_each (\<lambda>iDy (tHit, s3).
                     for_each (probe rec K pCol pRow iDbCID iDx iDy) directions
                       (tHit, s3\<lparr>runTime := runTime s3 + 1\<rparr>))
                    [1 .. sint (dy s2)] (tHit, s2))
                 [1 .. sint (dx s1)] (tHit, s1))
            [actualRelativeClusterBCID s mod 2 ^ 32
               .. (actualRelativeClusterBCID s + uint (DbCID s)) mod 2 ^ 32]
            (\<lambda>d. False, s) = ok (tHit, s')"
    unfolding searchLoops_def by (auto simp: bnd_eq_ok)
  then have "?Q (tHit, s')"
  proof (rule for_while_invariant[where Q = ?Q, rotated])
    show "?Q (\<lambda>d. False, s)" using assms(3) by simp
  next
    fix iDbCID st st'
    assume "?Q st" and b: "(case st of (tHit, s1) \<Rightarrow>
               for_each (\<lambda>iDx (tHit, s2).
                  for_each (\<lambda>iDy (tHit, s3).
                     for_each (probe rec K pCol pRow iDbCID iDx iDy) directions
                       (tHit, s3\<lparr>runTime := runTime s3 + 1\<rparr>))
                    [1 .. sint (dy s2)] (tHit, s2))
                 [1 .. sint (dx s1)] (tHit, s1)) = ok st'"
    obtain tH1 s1 where st: "st = (tH1, s1)" by (cases st)
    from b[unfolded st prod.case] show "?Q st'"
    proof (rule for_each_invariant[where Q = ?Q, rotated])
      show "?Q (tH1, s1)" using \<open>?Q st\<close> st by simp
    next
      fix iDx st2 st2'
      assume q2: "?Q st2" and b2: "(case st2 of (tHit, s2) \<Rightarrow>
                  for_each (\<lambda>iDy (tHit, s3).
                     for_each (probe rec K pCol pRow iDbCID iDx iDy) directions
                       (tHit, s3\<lparr>runTime := runTime s3 + 1\<rparr>))
                    [1 .. sint (dy s2)] (tHit, s2)) = ok st2'"
      obtain tH2 s2 where st2: "st2 = (tH2, s2)" by (cases st2)
      from b2[unfolded st2 prod.case] show "?Q st2'"
      proof (rule for_each_invariant[where Q = ?Q, rotated])
        show "?Q (tH2, s2)" using q2 st2 by simp
      next
        fix iDy st3 st3'
        assume q3: "?Q st3" and b3: "(case st3 of (tHit, s3) \<Rightarrow>
                     for_each (probe rec K pCol pRow iDbCID iDx iDy) directions
                       (tHit, s3\<lparr>runTime := runTime s3 + 1\<rparr>)) = ok st3'"
        obtain tH3 s3 where st3: "st3 = (tH3, s3)" by (cases st3)
        from b3[unfolded st3 prod.case] show "?Q st3'"
        proof (rule for_each_invariant[where Q = ?Q, rotated])
          show "?Q (tH3, s3\<lparr>runTime := runTime s3 + 1\<rparr>)" using q3 st3 tick by simp
        next
          fix d st4 st4'
          assume q4: "?Q st4" and p4: "probe rec K pCol pRow iDbCID iDx iDy d st4 = ok st4'"
          have r: "\<And>c r b s s'. I s \<Longrightarrow> hitExists K s c r b = ok True \<Longrightarrow> rec c r b s = ok s' \<Longrightarrow> I s'"
            by (rule rec)
          show "?Q st4'"
            by (rule probe_invariant[where I = I and rec = rec and K = K, OF r q4 p4])
        qed
      qed
    qed
  qed
  then show ?thesis by simp
qed

lemma hitExists_runTime [simp]: "hitExists K (s\<lparr>runTime := t\<rparr>) c r b = hitExists K s c r b"
  by (simp add: hitExists_eq)

lemma searchNextHits_invariant:
  assumes head: "\<And>c r b s e s'. I s \<Longrightarrow> hitExists K s c r b = ok True
      \<Longrightarrow> searchNextHits_head K c r b s = ok (e, s') \<Longrightarrow> I s'"
    and tick: "\<And>s. I s \<Longrightarrow> I (s\<lparr>runTime := runTime s + 1\<rparr>)"
  shows "I s \<Longrightarrow> hitExists K s c r b = ok True \<Longrightarrow> searchNextHits n K c r b s = ok s' \<Longrightarrow> I s'"
proof (induction n arbitrary: s c r b s')
  case 0
  then show ?case by simp
next
  case (Suc n)
  from Suc.prems(3) obtain e s7 where h: "searchNextHits_head K c r b s = ok (e, s7)"
    and l: "(if e then ok s7 else searchLoops (searchNextHits n K) K c r s7) = ok s'"
    unfolding searchNextHits_Suc by (auto simp: bnd_eq_ok)
  have 7: "I s7" using head Suc.prems(1,2) h by blast
  show ?case
  proof (cases e)
    case True
    with l 7 show ?thesis by simp
  next
    case False
    with l have loops: "searchLoops (searchNextHits n K) K c r s7 = ok s'" by simp
    have rec: "\<And>c r b s s'. I s \<Longrightarrow> hitExists K s c r b = ok True
        \<Longrightarrow> searchNextHits n K c r b s = ok s' \<Longrightarrow> I s'"
      by (rule Suc.IH)
    show ?thesis
      by (rule searchLoops_invariant[where I = I and rec = "searchNextHits n K", OF rec tick 7 loops])
  qed
qed

lemma head_grid:
  assumes "searchNextHits_head K c r b s = ok (e, s')"
  shows "cell K c r b < hitMapLength K
    \<and> hitMap s' = (hitMap s)(cell K c r b := - 1)
    \<and> nHits s' = nHits s - 1
    \<and> e = (nHits s' = 0)
    \<and> (\<not> e \<longrightarrow> bbox s' = bbox s)"
  using assms
  by (auto simp: searchNextHits_head_def deleteHit_def readHitMap_def readChargeMap_def
        Let_def bnd_eq_ok bbox_def split: if_splits)

lemma head_total: "searchNextHits_head K c r b s \<noteq> None"
  by (auto simp: searchNextHits_head_def deleteHit_def readHitMap_def readChargeMap_def
        Let_def bnd_eq_None split: if_splits)

lemma finite_occupied [simp]: "finite (occupied K s)"
  by (simp add: occupied_def)

lemma hitExists_occupied:
  "hitExists K s c r b = ok True \<longleftrightarrow> in_range K c r b \<and> cell K c r b \<in> occupied K s"
  using in_range_cell[of c K r b]
  by (auto simp: hitExists_eq in_range_def occupied_def)

lemma occupied_runTime [simp]: "occupied K (s\<lparr>runTime := t\<rparr>) = occupied K s"
  by (simp add: occupied_def)

lemma grid_inv_runTime [simp]: "grid_inv K (s\<lparr>runTime := t\<rparr>) = grid_inv K s"
  by (simp add: grid_inv_def on_matrix_def bracketed_def)

lemma bbox_runTime [simp]: "bbox (s\<lparr>runTime := t\<rparr>) = bbox s"
  by (simp add: bbox_def)

lemma occupied_after_head:
  assumes "searchNextHits_head K c r b s = ok (e, s')"
  shows "occupied K s' = occupied K s - {cell K c r b}"
  using head_grid[OF assms] by (auto simp: occupied_def)

lemma bracketed_cong:
  assumes "bbox s' = bbox s" "\<And>i. hitMap s' i \<noteq> - 1 \<Longrightarrow> hitMap s i \<noteq> - 1" "bracketed K s"
  shows "bracketed K s'"
  using assms unfolding bracketed_def bbox_def by (metis prod.inject)

lemma bracketed_empty:
  assumes "occupied K s = {}"
  shows "bracketed K s"
  unfolding bracketed_def
proof (intro allI impI)
  fix c r b
  assume a: "in_range K c r b \<and> hitMap s (cell K c r b) \<noteq> - 1"
  then have "cell K c r b < hitMapLength K"
    by (intro in_range_cell) (auto simp: in_range_def)
  with a have "cell K c r b \<in> occupied K s" by (simp add: occupied_def)
  with assms show "minColHitPos s \<le> uint c \<and> uint c \<le> maxColHitPos s
        \<and> minRowHitPos s \<le> uint r \<and> uint r \<le> maxRowHitPos s
        \<and> bCIDfirstHit s \<le> uint b \<and> uint b \<le> bCIDlastHit s" by simp
qed

lemma head_grid_inv:
  assumes inv: "grid_inv K s" and ex: "hitExists K s c r b = ok True"
    and h: "searchNextHits_head K c r b s = ok (e, s')"
  shows "grid_inv K s'"
proof -
  note g = head_grid[OF h]
  have occ: "occupied K s' = occupied K s - {cell K c r b}" by (rule occupied_after_head[OF h])
  have mem: "cell K c r b \<in> occupied K s" using ex by (simp add: hitExists_occupied)
  then have "card (occupied K s) \<ge> 1"
    by (metis One_nat_def Suc_leI card_gt_0_iff empty_iff finite_occupied)
  then have n: "nHits s' = int (card (occupied K s'))"
    using inv g mem by (simp add: occ grid_inv_def)
  have m: "on_matrix K s'" using inv by (auto simp: occ grid_inv_def on_matrix_def)
  have "bracketed K s'"
  proof (cases e)
    case True
    with g n have "occupied K s' = {}" by simp
    then show ?thesis by (rule bracketed_empty)
  next
    case False
    with g have "bbox s' = bbox s" by simp
    moreover have "hitMap s' i \<noteq> - 1 \<Longrightarrow> hitMap s i \<noteq> - 1" for i
      using g by (auto split: if_splits)
    ultimately show ?thesis using inv by (auto intro: bracketed_cong simp: grid_inv_def)
  qed
  with n m show ?thesis by (simp add: grid_inv_def)
qed

lemma head_scan_inv:
  assumes inv: "scan_inv K A B s" and ex: "hitExists K s c r b = ok True"
    and h: "searchNextHits_head K c r b s = ok (e, s')"
  shows "scan_inv K A B s'"
proof -
  note g = head_grid[OF h]
  have 1: "grid_inv K s'" using inv ex h unfolding scan_inv_def by (blast intro: head_grid_inv)
  have 2: "occupied K s' \<subseteq> A" using inv occupied_after_head[OF h] by (auto simp: scan_inv_def)
  have mem: "cell K c r b \<in> occupied K s" using ex by (simp add: hitExists_occupied)
  have 3: "nHits s' \<noteq> 0 \<longrightarrow> bbox s' = B"
  proof
    assume n: "nHits s' \<noteq> 0"
    with g have "bbox s' = bbox s" by simp
    moreover have "nHits s \<noteq> 0"
    proof
      assume "nHits s = 0"
      with inv have "occupied K s = {}" by (simp add: scan_inv_def grid_inv_def)
      with mem show False by simp
    qed
    ultimately show "bbox s' = B" using inv by (simp add: scan_inv_def)
  qed
  from 1 2 3 show ?thesis by (simp add: scan_inv_def)
qed

lemma scan_inv_runTime [simp]: "scan_inv K A B (s\<lparr>runTime := t\<rparr>) = scan_inv K A B s"
  by (simp add: scan_inv_def)

lemma searchNextHits_scan_inv:
  assumes "scan_inv K A B s" "hitExists K s c r b = ok True" "searchNextHits n K c r b s = ok s'"
  shows "scan_inv K A B s'"
proof -
  have head: "\<And>c r b s e s'. scan_inv K A B s \<Longrightarrow> hitExists K s c r b = ok True
      \<Longrightarrow> searchNextHits_head K c r b s = ok (e, s') \<Longrightarrow> scan_inv K A B s'"
    by (rule head_scan_inv)
  have tick: "\<And>s. scan_inv K A B s \<Longrightarrow> scan_inv K A B (s\<lparr>runTime := runTime s + 1\<rparr>)"
    by simp
  show ?thesis
    by (rule searchNextHits_invariant[where I = "scan_inv K A B", OF head tick assms])
qed

lemma searchLoops_scan_inv:
  assumes "scan_inv K A B s" "searchLoops (searchNextHits n K) K c r s = ok s'"
  shows "scan_inv K A B s'"
proof -
  have rec: "\<And>c r b s s'. scan_inv K A B s \<Longrightarrow> hitExists K s c r b = ok True
      \<Longrightarrow> searchNextHits n K c r b s = ok s' \<Longrightarrow> scan_inv K A B s'"
    by (rule searchNextHits_scan_inv)
  have tick: "\<And>s. scan_inv K A B s \<Longrightarrow> scan_inv K A B (s\<lparr>runTime := runTime s + 1\<rparr>)"
    by simp
  show ?thesis
    by (rule searchLoops_invariant[where I = "scan_inv K A B" and rec = "searchNextHits n K",
          OF rec tick assms])
qed

lemma searchNextHits_removes_start:
  assumes inv: "scan_inv K A B s" and ex: "hitExists K s c r b = ok True"
    and run: "searchNextHits n K c r b s = ok s'"
  shows "scan_inv K (A - {cell K c r b}) B s'"
proof (cases n)
  case 0
  with run show ?thesis by simp
next
  case (Suc m)
  from run obtain e s7 where h: "searchNextHits_head K c r b s = ok (e, s7)"
    and l: "(if e then ok s7 else searchLoops (searchNextHits m K) K c r s7) = ok s'"
    unfolding Suc searchNextHits_Suc by (auto simp: bnd_eq_ok)
  have "scan_inv K A B s7" using inv ex h by (rule head_scan_inv)
  moreover have "occupied K s7 \<subseteq> A - {cell K c r b}"
    using inv occupied_after_head[OF h] by (auto simp: scan_inv_def)
  ultimately have 7: "scan_inv K (A - {cell K c r b}) B s7"
    by (simp add: scan_inv_def)
  show ?thesis
  proof (cases e)
    case True
    with l 7 show ?thesis by simp
  next
    case False
    with l have "searchLoops (searchNextHits m K) K c r s7 = ok s'" by simp
    with 7 show ?thesis by (rule searchLoops_scan_inv)
  qed
qed

subsection \<open>The flood fill returns\<close>

lemma for_each_total:
  assumes "Q st"
    and "\<And>i st. i \<in> set xs \<Longrightarrow> Q st \<Longrightarrow> body i st \<noteq> None \<and> (\<forall>st'. body i st = ok st' \<longrightarrow> Q st')"
  shows "for_each body xs st \<noteq> None"
  using assms
proof (induction xs arbitrary: st)
  case Nil
  then show ?case by simp
next
  case (Cons i xs)
  have 1: "body i st \<noteq> None" and 2: "\<And>st'. body i st = ok st' \<Longrightarrow> Q st'"
    using Cons.prems by auto
  have "for_each body xs st' \<noteq> None" if "body i st = ok st'" for st'
    using Cons.IH[OF 2[OF that]] Cons.prems(2) by auto
  with 1 show ?case by (auto simp: bnd_eq_None)
qed

lemma for_while_total:
  assumes "Q st"
    and "\<And>i st. i \<in> set xs \<Longrightarrow> Q st \<Longrightarrow> cond i st
      \<Longrightarrow> body i st \<noteq> None \<and> (\<forall>st'. body i st = ok st' \<longrightarrow> Q st')"
  shows "for_while cond body xs st \<noteq> None"
  using assms
proof (induction xs arbitrary: st)
  case Nil
  then show ?case by simp
next
  case (Cons i xs)
  show ?case
  proof (cases "cond i st")
    case True
    have 1: "body i st \<noteq> None" and 2: "\<And>st'. body i st = ok st' \<Longrightarrow> Q st'"
      using Cons.prems True by auto
    have "for_while cond body xs st' \<noteq> None" if "body i st = ok st'" for st'
      using Cons.IH[OF 2[OF that]] Cons.prems(2) by auto
    with 1 True show ?thesis by (auto simp: bnd_eq_None)
  next
    case False
    then show ?thesis by simp
  qed
qed

lemma hitExists_total: "hitExists K s c r b \<noteq> None"
  by (simp add: hitExists_eq)

lemma probe_total:
  assumes rec: "\<And>c r b s. Q s \<Longrightarrow> hitExists K s c r b = ok True \<Longrightarrow> rec c r b s \<noteq> None"
    and "Q (snd st)"
  shows "probe rec K pCol pRow iDbCID iDx iDy d st \<noteq> None"
proof (cases st)
  case (Pair tHit s)
  obtain e where e: "hitExists K s (fst (neighbour d pCol pRow iDx iDy))
        (snd (neighbour d pCol pRow iDx iDy)) (word_of_int iDbCID) = ok e"
    by (simp add: hitExists_eq)
  show ?thesis
  proof (cases "e \<and> \<not> tHit d")
    case True
    with e have "hitExists K s (fst (neighbour d pCol pRow iDx iDy))
        (snd (neighbour d pCol pRow iDx iDy)) (word_of_int iDbCID) = ok True" by simp
    with rec[of s] assms(2) Pair
    have "rec (fst (neighbour d pCol pRow iDx iDy)) (snd (neighbour d pCol pRow iDx iDy))
            (word_of_int iDbCID) s \<noteq> None" by simp
    with e True show ?thesis
      unfolding Pair probe_def prod.case by (simp add: bnd_eq_None)
  next
    case False
    with e show ?thesis
      unfolding Pair probe_def prod.case by (auto simp: bnd_eq_None)
  qed
qed

lemma searchLoops_total:
  assumes rec: "\<And>c r b s. Q s \<Longrightarrow> hitExists K s c r b = ok True \<Longrightarrow> rec c r b s \<noteq> None"
    and pres: "\<And>c r b s s'. Q s \<Longrightarrow> hitExists K s c r b = ok True \<Longrightarrow> rec c r b s = ok s' \<Longrightarrow> Q s'"
    and tick: "\<And>s. Q s \<Longrightarrow> Q (s\<lparr>runTime := runTime s + 1\<rparr>)"
    and "Q s"
  shows "searchLoops rec K pCol pRow s \<noteq> None"
proof -
  let ?Q = "\<lambda>st :: (direction \<Rightarrow> bool) \<times> Clusterizer. Q (snd st)"
  have p_tot: "probe rec K pCol pRow iDbCID iDx iDy d st \<noteq> None" if "?Q st" for iDbCID iDx iDy d st
    using that by (intro probe_total[where Q = Q] rec) auto
  have p_inv: "?Q st'" if "?Q st" "probe rec K pCol pRow iDbCID iDx iDy d st = ok st'"
    for iDbCID iDx iDy d st st'
    by (rule probe_invariant[where I = Q and rec = rec and K = K, OF pres that])
  have t3: "for_each (probe rec K pCol pRow iDbCID iDx iDy) directions
              (tHit, s3\<lparr>runTime := runTime s3 + 1\<rparr>) \<noteq> None
            \<and> (\<forall>st'. for_each (probe rec K pCol pRow iDbCID iDx iDy) directions
              (tHit, s3\<lparr>runTime := runTime s3 + 1\<rparr>) = ok st' \<longrightarrow> ?Q st')"
    if "Q s3" for iDbCID iDx iDy tHit s3
  proof (intro conjI allI impI)
    show "for_each (probe rec K pCol pRow iDbCID iDx iDy) directions
              (tHit, s3\<lparr>runTime := runTime s3 + 1\<rparr>) \<noteq> None"
      by (rule for_each_total[where Q = ?Q]) (use that tick p_tot p_inv in auto)
  next
    fix st'
    assume "for_each (probe rec K pCol pRow iDbCID iDx iDy) directions
              (tHit, s3\<lparr>runTime := runTime s3 + 1\<rparr>) = ok st'"
    then show "?Q st'"
      by (rule for_each_invariant[where Q = ?Q, rotated]) (use that tick p_inv in auto)
  qed
  have t2: "for_each (\<lambda>iDy (tHit, s3).
                     for_each (probe rec K pCol pRow iDbCID iDx iDy) directions
                       (tHit, s3\<lparr>runTime := runTime s3 + 1\<rparr>)) ys (tHit, s2) \<noteq> None
            \<and> (\<forall>st'. for_each (\<lambda>iDy (tHit, s3).
                     for_each (probe rec K pCol pRow iDbCID iDx iDy) directions
                       (tHit, s3\<lparr>runTime := runTime s3 + 1\<rparr>)) ys (tHit, s2) = ok st' \<longrightarrow> ?Q st')"
    if "Q s2" for iDbCID iDx tHit s2 ys
  proof (intro conjI allI impI)
    show "for_each (\<lambda>iDy (tHit, s3).
                     for_each (probe rec K pCol pRow iDbCID iDx iDy) directions
                       (tHit, s3\<lparr>runTime := runTime s3 + 1\<rparr>)) ys (tHit, s2) \<noteq> None"
      by (rule for_each_total[where Q = ?Q]) (use that t3 in \<open>auto split: prod.splits\<close>)
  next
    fix st'
    assume "for_each (\<lambda>iDy (tHit, s3).
                     for_each (probe rec K pCol pRow iDbCID iDx iDy) directions
                       (tHit, s3\<lparr>runTime := runTime s3 + 1\<rparr>)) ys (tHit, s2) = ok st'"
    then show "?Q st'"
      by (rule for_each_invariant[where Q = ?Q, rotated]) (use that t3 in \<open>auto split: prod.splits\<close>)
  qed
  have t1: "for_each (\<lambda>iDx (tHit, s2).
                  for_each (\<lambda>iDy (tHit, s3).
                     for_each (probe rec K pCol pRow iDbCID iDx iDy) directions
                       (tHit, s3\<lparr>runTime := runTime s3 + 1\<rparr>))
                    [1 .. sint (dy s2)] (tHit, s2)) xs (tHit, s1) \<noteq> None
            \<and> (\<forall>st'. for_each (\<lambda>iDx (tHit, s2).
                  for_each (\<lambda>iDy (tHit, s3).
                     for_each (probe rec K pCol pRow iDbCID iDx iDy) directions
                       (tHit, s3\<lparr>runTime := runTime s3 + 1\<rparr>))
                    [1 .. sint (dy s2)] (tHit, s2)) xs (tHit, s1) = ok st' \<longrightarrow> ?Q st')"
    if "Q s1" for iDbCID tHit s1 xs
  proof (intro conjI allI impI)
    show "for_each (\<lambda>iDx (tHit, s2).
                  for_each (\<lambda>iDy (tHit, s3).
                     for_each (probe rec K pCol pRow iDbCID iDx iDy) directions
                       (tHit, s3\<lparr>runTime := runTime s3 + 1\<rparr>))
                    [1 .. sint (dy s2)] (tHit, s2)) xs (tHit, s1) \<noteq> None"
      by (rule for_each_total[where Q = ?Q]) (use that t2 in \<open>auto split: prod.splits\<close>)
  next
    fix st'
    assume "for_each (\<lambda>iDx (tHit, s2).
                  for_each (\<lambda>iDy (tHit, s3).
                     for_each (probe rec K pCol pRow iDbCID iDx iDy) directions
                       (tHit, s3\<lparr>runTime := runTime s3 + 1\<rparr>))
                    [1 .. sint (dy s2)] (tHit, s2)) xs (tHit, s1) = ok st'"
    then show "?Q st'"
      by (rule for_each_invariant[where Q = ?Q, rotated]) (use that t2 in \<open>auto split: prod.splits\<close>)
  qed
  have "for_while (\<lambda>iDbCID (tHit, s1). iDbCID \<le> bCIDlastHit s1 mod 2 ^ 32)
            (\<lambda>iDbCID (tHit, s1).
               for_each (\<lambda>iDx (tHit, s2).
                  for_each (\<lambda>iDy (tHit, s3).
                     for_each (probe rec K pCol pRow iDbCID iDx iDy) directions
                       (tHit, s3\<lparr>runTime := runTime s3 + 1\<rparr>))
                    [1 .. sint (dy s2)] (tHit, s2))
                 [1 .. sint (dx s1)] (tHit, s1))
            [actualRelativeClusterBCID s mod 2 ^ 32
               .. (actualRelativeClusterBCID s + uint (DbCID s)) mod 2 ^ 32]
            (\<lambda>d. False, s) \<noteq> None"
    by (rule for_while_total[where Q = ?Q]) (use assms(4) t1 in \<open>auto split: prod.splits\<close>)
  then show ?thesis
    unfolding searchLoops_def by (auto simp: bnd_eq_None)
qed

lemma searchNextHits_total:
  assumes "scan_inv K A B s" "finite A" "card A \<le> n" "hitExists K s c r b = ok True"
  shows "searchNextHits n K c r b s \<noteq> None"
  using assms
proof (induction n arbitrary: s c r b A)
  case 0
  then have "cell K c r b \<in> A" by (auto simp: hitExists_occupied scan_inv_def)
  with 0 show ?case by auto
next
  case (Suc n)
  have mem: "cell K c r b \<in> A" using Suc.prems by (auto simp: hitExists_occupied scan_inv_def)
  let ?A = "A - {cell K c r b}"
  have card: "card ?A \<le> n" "finite ?A" using Suc.prems mem by auto
  have "searchLoops (searchNextHits n K) K c r s7 \<noteq> None"
    if h: "searchNextHits_head K c r b s = ok (e, s7)" for e s7
  proof -
    have "scan_inv K A B s7" using Suc.prems(1,4) h by (rule head_scan_inv)
    moreover have "occupied K s7 \<subseteq> ?A"
      using Suc.prems(1) occupied_after_head[OF h] by (auto simp: scan_inv_def)
    ultimately have 7: "scan_inv K ?A B s7" by (simp add: scan_inv_def)
    show ?thesis
    proof (rule searchLoops_total[where Q = "scan_inv K ?A B"])
      show "scan_inv K ?A B s7" by (rule 7)
    next
      fix c r b s
      assume "scan_inv K ?A B s" "hitExists K s c r b = ok True"
      then show "searchNextHits n K c r b s \<noteq> None"
        using card by (intro Suc.IH[where A = ?A]) auto
    next
      fix c r b s s'
      assume "scan_inv K ?A B s" "hitExists K s c r b = ok True" "searchNextHits n K c r b s = ok s'"
      then show "scan_inv K ?A B s'" by (rule searchNextHits_scan_inv)
    qed simp
  qed
  then show ?case
    unfolding searchNextHits_Suc
    using head_total[of K c r b s]
    by (auto simp: bnd_eq_None)
qed

end
